theory Spec2Isabelle
  imports Main "HOL-Library.Multiset"
begin

section \<open>Strings\<close>

text \<open>
  A string is a \<open>char list\<close>; a character stands for the code unit of the same number,
  so the strings modelled are those whose code units are below 256 (ASCII and Latin-1).
  On these, \<open>toLowerCase\<close> folds the letters A to Z and the Latin-1 capitals
  \<open>U+00C0\<close> to \<open>U+00DE\<close> (the multiplication sign \<open>U+00D7\<close> apart); every other
  character is left as it is.
\<close>

definition toLowerChar :: "char \<Rightarrow> char" where
  "toLowerChar c =
     (let n = (of_char c :: nat) in
        if (65 \<le> n \<and> n \<le> 90) \<or> (192 \<le> n \<and> n \<le> 222 \<and> n \<noteq> 215)
        then char_of (n + 32) else c)"

definition toLowerCase :: "string \<Rightarrow> string" where
  "toLowerCase s = map toLowerChar s"

fun startsWith :: "string \<Rightarrow> string \<Rightarrow> bool" where
  "startsWith s [] = True"
| "startsWith [] (t # ts) = False"
| "startsWith (c # cs) (t # ts) = (c = t \<and> startsWith cs ts)"

definition endsWith :: "string \<Rightarrow> string \<Rightarrow> bool" where
  "endsWith s t = startsWith (rev s) (rev t)"

fun includesStr :: "string \<Rightarrow> string \<Rightarrow> bool" where
  "includesStr [] t = (t = [])"
| "includesStr (c # cs) t = (startsWith (c # cs) t \<or> includesStr cs t)"

text \<open>Word characters of a regular expression: \<open>[A-Za-z0-9_]\<close>.\<close>

definition isWordChar :: "char \<Rightarrow> bool" where
  "isWordChar c =
     (let n = (of_char c :: nat) in
        (48 \<le> n \<and> n \<le> 57) \<or> (65 \<le> n \<and> n \<le> 90) \<or> n = 95 \<or> (97 \<le> n \<and> n \<le> 122))"

text \<open>
  \<open>testWholeWord w s\<close> is \<open>/\bw\b/.test(s)\<close> for a literal \<open>w\<close> that starts and ends
  with a word character: \<open>w\<close> occurs in \<open>s\<close> with no word character right before it and
  none right after it. The first argument of \<open>wholeWordFrom\<close> says whether the
  character before the current position is a word character.
\<close>

fun wholeWordFrom :: "bool \<Rightarrow> string \<Rightarrow> string \<Rightarrow> bool" where
  "wholeWordFrom prevWord w [] = False"
| "wholeWordFrom prevWord w (c # cs) =
     ((\<not> prevWord \<and> startsWith (c # cs) w \<and>
        (case drop (length w) (c # cs) of [] \<Rightarrow> True | d # _ \<Rightarrow> \<not> isWordChar d))
      \<or> wholeWordFrom (isWordChar c) w cs)"

definition testWholeWord :: "string \<Rightarrow> string \<Rightarrow> bool" where
  "testWholeWord w s = wholeWordFrom False w s"

section \<open>Array.prototype.sort with a comparator\<close>

text \<open>
  \<open>[...xs].sort(cmp)\<close> is a stable sort: an element goes before another when the
  comparator is negative, and elements that compare equal keep their order. For a
  consistent comparator every stable sort returns the same list; it is written here as
  an insertion sort that puts each element in front of the sorted rest.
\<close>

fun insertBy :: "('a \<Rightarrow> 'a \<Rightarrow> int) \<Rightarrow> 'a \<Rightarrow> 'a list \<Rightarrow> 'a list" where
  "insertBy cmp x [] = [x]"
| "insertBy cmp x (y # ys) = (if cmp x y \<le> 0 then x # y # ys else y # insertBy cmp x ys)"

fun arraySort :: "('a \<Rightarrow> 'a \<Rightarrow> int) \<Rightarrow> 'a list \<Rightarrow> 'a list" where
  "arraySort cmp [] = []"
| "arraySort cmp (x # xs) = insertBy cmp x (arraySort cmp xs)"

section \<open>Release Resolver (app/downloads/page.tsx)\<close>

record ReleaseAsset =
  name :: string
  browser_download_url :: string
  size_bytes :: nat

record GitHubRelease =
  id_rel :: nat
  name_rel :: string
  tag_name :: string
  html_url :: string
  published_at :: string
  prerelease :: bool
  draft :: bool
  assets :: "ReleaseAsset list"

datatype Platform = Windows | MacArm64 | MacX64

record DownloadSlot =
  label :: string
  platform :: Platform
  asset :: "ReleaseAsset option"

datatype MacArch = Arm64 | X64 | UnknownArch

definition isDownloadableAsset :: "string \<Rightarrow> bool" where
  "isDownloadableAsset nm =
     (let lower = toLowerCase nm in
        list_ex (\<lambda>ext. endsWith lower ext)
          [''.exe'', ''.msi'', ''.dmg'', ''.pkg'', ''.zip'', ''.tar.gz''])"

definition isWindowsAsset :: "string \<Rightarrow> bool" where
  "isWindowsAsset nm =
     (let lower = toLowerCase nm in
        includesStr lower ''win'' \<or> endsWith lower ''.exe'' \<or> endsWith lower ''.msi'')"

definition isMacAsset :: "string \<Rightarrow> bool" where
  "isMacAsset nm =
     (let lower = toLowerCase nm in
        includesStr lower ''mac'' \<or> includesStr lower ''darwin'' \<or>
        endsWith lower ''.dmg'' \<or> endsWith lower ''.pkg'')"

definition getMacAssetArchitecture :: "string \<Rightarrow> MacArch" where
  "getMacAssetArchitecture nm =
     (let lower = toLowerCase nm in
        if testWholeWord ''arm64'' lower \<or> testWholeWord ''aarch64'' lower \<or>
           includesStr lower ''apple-silicon'' \<or> includesStr lower ''apple_silicon''
        then Arm64
        else if testWholeWord ''x64'' lower \<or> testWholeWord ''x86_64'' lower \<or>
                testWholeWord ''amd64'' lower \<or> testWholeWord ''intel'' lower
        then X64
        else UnknownArch)"

definition isInstallerAsset :: "string \<Rightarrow> bool" where
  "isInstallerAsset nm =
     (let lower = toLowerCase nm in
        includesStr lower ''setup'' \<or> endsWith lower ''.msi'' \<or>
        endsWith lower ''.dmg'' \<or> endsWith lower ''.pkg'')"

definition isPortableAsset :: "string \<Rightarrow> bool" where
  "isPortableAsset nm =
     (let lower = toLowerCase nm in
        includesStr lower ''portable'' \<or> endsWith lower ''.zip'' \<or> endsWith lower ''.tar.gz'' \<or>
        (endsWith lower ''.exe'' \<and> \<not> includesStr lower ''setup''))"

text \<open>
  The \<open>reduce\<close> of \<open>chooseBestAsset\<close>: \<open>n\<close> is \<open>preferredTerms.length\<close>, \<open>idx\<close> the index
  of the next term and \<open>score\<close> the accumulator.
\<close>

fun scoreReduce :: "string \<Rightarrow> nat \<Rightarrow> nat \<Rightarrow> string list \<Rightarrow> int \<Rightarrow> int" where
  "scoreReduce lower n idx [] score = score"
| "scoreReduce lower n idx (t # ts) score =
     scoreReduce lower n (Suc idx) ts
       (if includesStr lower t then score + (int n - int idx) * 10 else score)"

definition assetScore :: "string list \<Rightarrow> ReleaseAsset \<Rightarrow> int" where
  "assetScore preferredTerms a =
     scoreReduce (toLowerCase (name a)) (length preferredTerms) 0 preferredTerms 0"

definition compareAssets :: "string list \<Rightarrow> ReleaseAsset \<Rightarrow> ReleaseAsset \<Rightarrow> int" where
  "compareAssets preferredTerms a b =
     (let aScore = assetScore preferredTerms a; bScore = assetScore preferredTerms b in
        if aScore \<noteq> bScore then bScore - aScore
        else int (size_bytes b) - int (size_bytes a))"

definition chooseBestAsset :: "ReleaseAsset list \<Rightarrow> string list \<Rightarrow> ReleaseAsset option" where
  "chooseBestAsset pool preferredTerms =
     (if length pool = 0 then None
      else case arraySort (compareAssets preferredTerms) pool of
             [] \<Rightarrow> None
           | best # _ \<Rightarrow> Some best)"

text \<open>
  The candidate pools of \<open>buildDownloadSlots\<close>, in the order the source computes them.
  \<open>downloadableAssets\<close> is the local \<open>assets\<close>. The three lists \<open>macArm64Assets\<close>,
  \<open>macX64Assets\<close> and \<open>macUnknownArchAssets\<close> are \<open>macArchAssets\<close> at the three
  architectures, and likewise \<open>macInstallerAssets\<close> and \<open>macPortableAssets\<close> for the six
  lists filtered from them.
\<close>

definition downloadableAssets :: "GitHubRelease \<Rightarrow> ReleaseAsset list" where
  "downloadableAssets release = filter (\<lambda>a. isDownloadableAsset (name a)) (assets release)"

definition windowsAssets :: "GitHubRelease \<Rightarrow> ReleaseAsset list" where
  "windowsAssets release = filter (\<lambda>a. isWindowsAsset (name a)) (downloadableAssets release)"

definition macAssets :: "GitHubRelease \<Rightarrow> ReleaseAsset list" where
  "macAssets release = filter (\<lambda>a. isMacAsset (name a)) (downloadableAssets release)"

definition windowsInstallerAssets :: "GitHubRelease \<Rightarrow> ReleaseAsset list" where
  "windowsInstallerAssets release = filter (\<lambda>a. isInstallerAsset (name a)) (windowsAssets release)"

definition windowsPortableAssets :: "GitHubRelease \<Rightarrow> ReleaseAsset list" where
  "windowsPortableAssets release = filter (\<lambda>a. isPortableAsset (name a)) (windowsAssets release)"

definition macArchAssets :: "MacArch \<Rightarrow> GitHubRelease \<Rightarrow> ReleaseAsset list" where
  "macArchAssets arch release =
     filter (\<lambda>a. getMacAssetArchitecture (name a) = arch) (macAssets release)"

definition macInstallerAssets :: "MacArch \<Rightarrow> GitHubRelease \<Rightarrow> ReleaseAsset list" where
  "macInstallerAssets arch release =
     filter (\<lambda>a. isInstallerAsset (name a)) (macArchAssets arch release)"

definition macPortableAssets :: "MacArch \<Rightarrow> GitHubRelease \<Rightarrow> ReleaseAsset list" where
  "macPortableAssets arch release =
     filter (\<lambda>a. isPortableAsset (name a)) (macArchAssets arch release)"

text \<open>
  The pool a mac slot hands to \<open>chooseBestAsset\<close>:
  \<open>macArm64InstallerAssets.length > 0 ? macArm64InstallerAssets : macUnknownInstallerAssets\<close>
  and its three siblings.
\<close>

definition macInstallerPool :: "MacArch \<Rightarrow> GitHubRelease \<Rightarrow> ReleaseAsset list" where
  "macInstallerPool arch release =
     (if length (macInstallerAssets arch release) > 0 then macInstallerAssets arch release
      else macInstallerAssets UnknownArch release)"

definition macPortablePool :: "MacArch \<Rightarrow> GitHubRelease \<Rightarrow> ReleaseAsset list" where
  "macPortablePool arch release =
     (if length (macPortableAssets arch release) > 0 then macPortableAssets arch release
      else macPortableAssets UnknownArch release)"

record DownloadSlots =
  windowsInstaller :: DownloadSlot
  windowsPortable :: DownloadSlot
  macArm64Installer :: DownloadSlot
  macArm64Portable :: DownloadSlot
  macX64Installer :: DownloadSlot
  macX64Portable :: DownloadSlot

definition buildDownloadSlots :: "GitHubRelease \<Rightarrow> DownloadSlots" where
  "buildDownloadSlots release =
     \<lparr> windowsInstaller =
         \<lparr> label = ''Windows Installer'', platform = Windows,
           asset = chooseBestAsset (windowsInstallerAssets release) [''setup'', ''.msi'', ''.exe''] \<rparr>,
       windowsPortable =
         \<lparr> label = ''Windows Portable'', platform = Windows,
           asset = chooseBestAsset (windowsPortableAssets release) [''portable'', ''.exe'', ''.zip''] \<rparr>,
       macArm64Installer =
         \<lparr> label = ''macOS (Apple Silicon) Installer'', platform = MacArm64,
           asset = chooseBestAsset (macInstallerPool Arm64 release) [''dmg'', ''pkg''] \<rparr>,
       macArm64Portable =
         \<lparr> label = ''macOS (Apple Silicon) Portable'', platform = MacArm64,
           asset = chooseBestAsset (macPortablePool Arm64 release) [''portable'', ''.zip'', ''.tar.gz''] \<rparr>,
       macX64Installer =
         \<lparr> label = ''macOS (Intel) Installer'', platform = MacX64,
           asset = chooseBestAsset (macInstallerPool X64 release) [''dmg'', ''pkg''] \<rparr>,
       macX64Portable =
         \<lparr> label = ''macOS (Intel) Portable'', platform = MacX64,
           asset = chooseBestAsset (macPortablePool X64 release) [''portable'', ''.zip'', ''.tar.gz''] \<rparr> \<rparr>"

text \<open>The array \<open>DownloadsPage\<close> hands to \<open>DownloadCards\<close>.\<close>

definition slotList :: "DownloadSlots \<Rightarrow> DownloadSlot list" where
  "slotList slots =
     [windowsInstaller slots, windowsPortable slots, macArm64Installer slots,
      macArm64Portable slots, macX64Installer slots, macX64Portable slots]"

text \<open>
  \<open>fetchReleases\<close> reads one HTTP response: \<open>ok\<close> is \<open>response.ok\<close>, \<open>body\<close> the
  release array of \<open>response.json()\<close>.
\<close>

record Response =
  ok :: bool
  body :: "GitHubRelease list"

definition fetchReleases :: "Response \<Rightarrow> GitHubRelease list" where
  "fetchReleases response =
     (if \<not> ok response then []
      else filter (\<lambda>release. \<not> draft release) (body response))"

text \<open>A query parameter is \<open>string | string[] | undefined\<close>.\<close>

datatype QueryValue = Undefined | Single string | Many "string list"

fun parseIncludePrereleases :: "QueryValue \<Rightarrow> bool" where
  "parseIncludePrereleases (Many vs) = (''1'' \<in> set vs \<or> ''true'' \<in> set vs)"
| "parseIncludePrereleases (Single v) = (v = ''1'' \<or> v = ''true'')"
| "parseIncludePrereleases Undefined = False"

text \<open>
  \<open>DownloadsPage\<close>: the locals of the component, and of the rendered page the notice
  "No GitHub release is currently available." (\<open>noReleaseNotice\<close>) and the slot array
  handed to \<open>DownloadCards\<close> (\<open>downloadCards\<close>, \<open>None\<close> when the block is not rendered).
\<close>

record DownloadsPageResult =
  hasStableLatest :: bool
  effectiveIncludePrereleases :: bool
  selectedRelease :: "GitHubRelease option"
  slots :: "DownloadSlots option"
  noReleaseNotice :: bool
  downloadCards :: "DownloadSlot list option"

text \<open>\<open>xs[0] ?? null\<close>.\<close>

definition firstOrNull :: "'a list \<Rightarrow> 'a option" where
  "firstOrNull xs = (case xs of [] \<Rightarrow> None | x # _ \<Rightarrow> Some x)"

text \<open>
  The body of \<open>DownloadsPage\<close> after its two awaits: \<open>userIncludePrereleases\<close> is
  the parsed query parameter and \<open>allReleases\<close> the result of \<open>fetchReleases\<close>.
\<close>

definition renderDownloads :: "bool \<Rightarrow> GitHubRelease list \<Rightarrow> DownloadsPageResult" where
  "renderDownloads userIncludePrereleases allReleases =
     (let stableReleases = filter (\<lambda>release. \<not> prerelease release) allReleases;
          hasStable = (length stableReleases > 0);
          effective = (userIncludePrereleases \<or> \<not> hasStable);
          selected = (if effective then firstOrNull allReleases else firstOrNull stableReleases);
          slts = (case selected of None \<Rightarrow> None | Some release \<Rightarrow> Some (buildDownloadSlots release))
      in \<lparr> hasStableLatest = hasStable,
           effectiveIncludePrereleases = effective,
           selectedRelease = selected,
           slots = slts,
           noReleaseNotice = (selected = None),
           downloadCards = (case selected of None \<Rightarrow> None
                            | Some _ \<Rightarrow> (case slts of None \<Rightarrow> None | Some sl \<Rightarrow> Some (slotList sl))) \<rparr>)"

definition DownloadsPage :: "QueryValue \<Rightarrow> Response \<Rightarrow> DownloadsPageResult" where
  "DownloadsPage includePrereleases response =
     renderDownloads (parseIncludePrereleases includePrereleases) (fetchReleases response)"

section \<open>Client Platform Matcher (download-cards.tsx)\<close>

datatype DetectedOS = OSWindows | OSMacArm64 | OSMacX64 | OSMac | OSOther | OSUnknown

text \<open>The string literals behind the two union types; \<open>slot.platform === os\<close> compares them.\<close>

fun platformTag :: "Platform \<Rightarrow> string" where
  "platformTag Windows = ''windows''"
| "platformTag MacArm64 = ''mac-arm64''"
| "platformTag MacX64 = ''mac-x64''"

fun osTag :: "DetectedOS \<Rightarrow> string" where
  "osTag OSWindows = ''windows''"
| "osTag OSMacArm64 = ''mac-arm64''"
| "osTag OSMacX64 = ''mac-x64''"
| "osTag OSMac = ''mac''"
| "osTag OSOther = ''other''"
| "osTag OSUnknown = ''unknown''"

definition getRelevanceScore :: "DownloadSlot \<Rightarrow> DetectedOS \<Rightarrow> int" where
  "getRelevanceScore slot os =
     (if os = OSUnknown \<or> os = OSOther then 0
      else if os = OSWindows then (if platform slot = Windows then 0 else 2)
      else if os = OSMacArm64 then
        (if platform slot = MacArm64 then 0 else if platform slot = MacX64 then 1 else 2)
      else if os = OSMacX64 then
        (if platform slot = MacX64 then 0 else if platform slot = MacArm64 then 1 else 2)
      else if os = OSMac then (if platform slot = Windows then 2 else 0)
      else 0)"

definition orderedSlots :: "DownloadSlot list \<Rightarrow> DetectedOS \<Rightarrow> DownloadSlot list" where
  "orderedSlots slts os =
     arraySort (\<lambda>a b. getRelevanceScore a os - getRelevanceScore b os) slts"

definition isApplicable :: "DownloadSlot \<Rightarrow> DetectedOS \<Rightarrow> bool" where
  "isApplicable slot os =
     (os = OSUnknown \<or> os = OSOther \<or>
      (os = OSMac \<and> (platform slot = MacArm64 \<or> platform slot = MacX64)) \<or>
      platformTag (platform slot) = osTag os)"

text \<open>What \<open>DownloadCards\<close> renders: the ordered slots, each with its \<open>isApplicable\<close> flag.\<close>

definition DownloadCards :: "DownloadSlot list \<Rightarrow> DetectedOS \<Rightarrow> (DownloadSlot \<times> bool) list" where
  "DownloadCards slts os = map (\<lambda>slot. (slot, isApplicable slot os)) (orderedSlots slts os)"

section \<open>Roadmap (app/about/page.tsx)\<close>

subsection \<open>The regular expressions\<close>

text \<open>
  White space (\<open>\s\<close>, and what \<open>trim\<close> removes): tab, line feed, vertical tab, form
  feed, carriage return, space and the no-break space \<open>U+00A0\<close>. The line terminators
  that \<open>.\<close> does not match are line feed and carriage return. \<open>\d\<close> is a decimal
  digit.
\<close>

definition isSpace :: "char \<Rightarrow> bool" where
  "isSpace c = (let n = (of_char c :: nat) in (9 \<le> n \<and> n \<le> 13) \<or> n = 32 \<or> n = 160)"

definition isLineTerminator :: "char \<Rightarrow> bool" where
  "isLineTerminator c = (let n = (of_char c :: nat) in n = 10 \<or> n = 13)"

definition isDigit :: "char \<Rightarrow> bool" where
  "isDigit c = (let n = (of_char c :: nat) in 48 \<le> n \<and> n \<le> 57)"

definition trim :: "string \<Rightarrow> string" where
  "trim s = rev (dropWhile isSpace (rev (dropWhile isSpace s)))"

text \<open>
  \<open>markdown.split(/\r?\n/)\<close>: \<open>cur\<close> holds the characters of the current line, last
  one first; a carriage return right before the line feed belongs to the separator.
\<close>

fun splitLines :: "string \<Rightarrow> string \<Rightarrow> string list" where
  "splitLines cur [] = [rev cur]"
| "splitLines cur (c # cs) =
     (if c = CHR 0x0A
      then rev (case cur of [] \<Rightarrow> [] | d # ds \<Rightarrow> if d = CHR 0x0D then ds else d # ds)
             # splitLines [] cs
      else splitLines (c # cur) cs)"

text \<open>
  The tail \<open>\s+(.+)$\<close> of the heading and the task pattern, on the rest of the line: the
  white space is taken greedily, the group is what follows and must hold no line
  terminator. When only white space follows, the pattern gives its last character back
  to the group.
\<close>

definition matchSpacesThenRest :: "string \<Rightarrow> string option" where
  "matchSpacesThenRest s =
     (let ws = takeWhile isSpace s; r = dropWhile isSpace s in
        if ws = [] then None
        else if r \<noteq> [] then (if list_ex isLineTerminator r then None else Some r)
        else if length ws \<ge> 2 \<and> \<not> isLineTerminator (last ws) then Some [last ws]
        else None)"

text \<open>\<open>line.match(/^##\s+(.+)$/)\<close>, giving group 1.\<close>

definition matchHeading :: "string \<Rightarrow> string option" where
  "matchHeading line =
     (if startsWith line ''##'' then matchSpacesThenRest (drop 2 line) else None)"

text \<open>\<open>line.match(/^[-*]\s+\[([ xX])\]\s+(.+)$/)\<close>, giving groups 1 and 2.\<close>

definition matchTask :: "string \<Rightarrow> (char \<times> string) option" where
  "matchTask line =
     (case line of
        [] \<Rightarrow> None
      | b # rest \<Rightarrow>
          if b = CHR ''-'' \<or> b = CHR ''*'' then
            (if takeWhile isSpace rest = [] then None
             else case dropWhile isSpace rest of
                    o1 # m # c1 # r2 \<Rightarrow>
                      if o1 = CHR ''['' \<and> (m = CHR '' '' \<or> m = CHR ''x'' \<or> m = CHR ''X'') \<and> c1 = CHR '']''
                      then (case matchSpacesThenRest r2 of None \<Rightarrow> None | Some g \<Rightarrow> Some (m, g))
                      else None
                  | _ \<Rightarrow> None)
          else None)"

text \<open>
  \<open>\d+\.\d+\.\d+\b\<close> at the start of \<open>s\<close>: three maximal digit runs separated by dots,
  with no word character after the third.
\<close>

definition matchVersionAt :: "string \<Rightarrow> (string \<times> string \<times> string) option" where
  "matchVersionAt s =
     (let d1 = takeWhile isDigit s in
        if d1 = [] then None
        else case dropWhile isDigit s of
               p1 # s2 \<Rightarrow>
                 if p1 \<noteq> CHR ''.'' then None
                 else
                   (let d2 = takeWhile isDigit s2 in
                      if d2 = [] then None
                      else case dropWhile isDigit s2 of
                             p2 # s3 \<Rightarrow>
                               if p2 \<noteq> CHR ''.'' then None
                               else
                                 (let d3 = takeWhile isDigit s3 in
                                    if d3 = [] then None
                                    else case dropWhile isDigit s3 of
                                           [] \<Rightarrow> Some (d1, d2, d3)
                                         | e # _ \<Rightarrow> if isWordChar e then None else Some (d1, d2, d3))
                           | [] \<Rightarrow> None)
             | [] \<Rightarrow> None)"

text \<open>\<open>cleaned.match(/(\d+)\.(\d+)\.(\d+)\b/)\<close>: the leftmost match.\<close>

fun findSemver :: "string \<Rightarrow> (string \<times> string \<times> string) option" where
  "findSemver [] = None"
| "findSemver (c # cs) =
     (case matchVersionAt (c # cs) of Some m \<Rightarrow> Some m | None \<Rightarrow> findSemver cs)"

text \<open>\<open>heading.match(/v?(\d+\.\d+\.\d+)\b/i)\<close>: the leftmost match, giving group 1.\<close>

fun findVersion :: "string \<Rightarrow> string option" where
  "findVersion [] = None"
| "findVersion (c # cs) =
     (case (if c = CHR ''v'' \<or> c = CHR ''V'' then matchVersionAt cs else None) of
        Some (d1, d2, d3) \<Rightarrow> Some (d1 @ ''.'' @ d2 @ ''.'' @ d3)
      | None \<Rightarrow>
          (case matchVersionAt (c # cs) of
             Some (d1, d2, d3) \<Rightarrow> Some (d1 @ ''.'' @ d2 @ ''.'' @ d3)
           | None \<Rightarrow> findVersion cs))"

text \<open>
  \<open>Number(digits)\<close> on a run of decimal digits, and the decimal numeral that a template
  literal prints for a number. Both are exact here; the source computes with doubles, so
  the two agree with it for numbers up to \<open>2^53\<close>.
\<close>

definition digitsToNat :: "string \<Rightarrow> nat" where
  "digitsToNat ds = foldl (\<lambda>acc d. acc * 10 + (of_char d - 48)) 0 ds"

fun natToDigits :: "nat \<Rightarrow> string" where
  "natToDigits n =
     (if n < 10 then [char_of (48 + n)] else natToDigits (n div 10) @ [char_of (48 + n mod 10)])"

subsection \<open>Versions and milestones\<close>

record ParsedSemver =
  major :: nat
  minor :: nat
  patch :: nat

record RoadmapItem =
  done_item :: bool
  text_item :: string

record RoadmapMilestone =
  heading :: string
  version :: ParsedSemver
  items :: "RoadmapItem list"

record UpcomingReleasePlan =
  currentVersion :: "string option"
  nextVersionHeading :: string
  items_plan :: "string list"
  sourceUrl :: "string option"
  hasNextVersion :: bool

definition parseSemver :: "string \<Rightarrow> ParsedSemver option" where
  "parseSemver v =
     (let cleaned = (case trim v of
                       [] \<Rightarrow> []
                     | c # cs \<Rightarrow> if c = CHR ''v'' \<or> c = CHR ''V'' then cs else c # cs)
      in case findSemver cleaned of
           None \<Rightarrow> None
         | Some (d1, d2, d3) \<Rightarrow>
             Some \<lparr> major = digitsToNat d1, minor = digitsToNat d2, patch = digitsToNat d3 \<rparr>)"

definition formatSemver :: "ParsedSemver \<Rightarrow> string" where
  "formatSemver v =
     ''v'' @ natToDigits (major v) @ ''.'' @ natToDigits (minor v) @ ''.'' @ natToDigits (patch v)"

definition compareSemver :: "ParsedSemver \<Rightarrow> ParsedSemver \<Rightarrow> int" where
  "compareSemver a b =
     (if major a \<noteq> major b then int (major a) - int (major b)
      else if minor a \<noteq> minor b then int (minor a) - int (minor b)
      else int (patch a) - int (patch b))"

text \<open>
  The version of a heading:
  \<open>versionMatch = heading.match(/v?(\d+\.\d+\.\d+)\b/i)\<close>, then
  \<open>versionMatch ? parseSemver(versionMatch[1]) : null\<close>.
\<close>

definition headingVersion :: "string \<Rightarrow> ParsedSemver option" where
  "headingVersion hd_text =
     (case findVersion hd_text of None \<Rightarrow> None | Some vm \<Rightarrow> parseSemver vm)"

text \<open>
  The loop of \<open>parseRoadmapMarkdown\<close>. \<open>current\<close>, when it is not null, is the milestone
  pushed last, so \<open>current.items.push\<close> extends the last element of \<open>milestones\<close>; the
  flag \<open>cur\<close> says whether \<open>current\<close> is set.
\<close>

definition pushItem :: "RoadmapMilestone list \<Rightarrow> RoadmapItem \<Rightarrow> RoadmapMilestone list" where
  "pushItem milestones it =
     (case rev milestones of
        [] \<Rightarrow> milestones
      | m # earlier \<Rightarrow> rev earlier @ [m\<lparr>items := items m @ [it]\<rparr>])"

fun parseLines :: "string list \<Rightarrow> RoadmapMilestone list \<Rightarrow> bool \<Rightarrow> RoadmapMilestone list" where
  "parseLines [] milestones cur = milestones"
| "parseLines (line # rest) milestones cur =
     (case matchHeading line of
        Some g \<Rightarrow>
          (let hd_text = trim g in
             case headingVersion hd_text of
               Some v \<Rightarrow>
                 parseLines rest (milestones @ [\<lparr> heading = hd_text, version = v, items = [] \<rparr>]) True
             | None \<Rightarrow> parseLines rest milestones False)
      | None \<Rightarrow>
          (case matchTask line of
             Some (m, g) \<Rightarrow>
               if cur
               then parseLines rest
                      (pushItem milestones
                         \<lparr> done_item = (toLowerCase [m] = ''x''), text_item = trim g \<rparr>) cur
               else parseLines rest milestones cur
           | None \<Rightarrow> parseLines rest milestones cur))"

definition parseRoadmapMarkdown :: "string \<Rightarrow> RoadmapMilestone list" where
  "parseRoadmapMarkdown markdown = parseLines (splitLines [] markdown) [] False"

text \<open>
  \<open>fetchUpcomingReleasePlan\<close>, given what its two fetches returned: \<open>roadmap\<close> is the
  result of \<open>fetchRoadmapMarkdown\<close> (the markdown and its source URL, or null) and
  \<open>current\<close> the result of \<open>fetchCurrentStableVersion\<close>. \<open>uncheckedTexts\<close> is
  \<open>items.filter((item) => !item.done).map((item) => item.text)\<close>, \<open>hasWork\<close> is
  \<open>items.some((item) => !item.done)\<close>, and \<open>planFor\<close> is the end of the function, from
  \<open>uncheckedItems\<close> to the returned plan.
\<close>

definition uncheckedTexts :: "RoadmapMilestone \<Rightarrow> string list" where
  "uncheckedTexts m = map text_item (filter (\<lambda>item. \<not> done_item item) (items m))"

definition hasWork :: "RoadmapMilestone \<Rightarrow> bool" where
  "hasWork m = list_ex (\<lambda>item. \<not> done_item item) (items m)"

definition planFor :: "ParsedSemver option \<Rightarrow> string \<Rightarrow> RoadmapMilestone \<Rightarrow> UpcomingReleasePlan" where
  "planFor current url nextMilestone =
     (let uncheckedItems = uncheckedTexts nextMilestone;
          its = (if length uncheckedItems > 0 then uncheckedItems
                 else map text_item (items nextMilestone))
      in \<lparr> currentVersion = map_option formatSemver current,
           nextVersionHeading = heading nextMilestone,
           items_plan = (if length its > 0 then its else [''No tasks listed for this milestone.'']),
           sourceUrl = Some url,
           hasNextVersion = True \<rparr>)"

definition fetchUpcomingReleasePlan ::
  "(string \<times> string) option \<Rightarrow> ParsedSemver option \<Rightarrow> UpcomingReleasePlan option" where
  "fetchUpcomingReleasePlan roadmap current =
     (case roadmap of
        None \<Rightarrow> None
      | Some (markdown, url) \<Rightarrow>
          (let milestones = arraySort (\<lambda>a b. compareSemver (version a) (version b))
                              (parseRoadmapMarkdown markdown)
           in if length milestones = 0 then None
              else case current of
                Some cv \<Rightarrow>
                  (case find (\<lambda>m. compareSemver (version m) cv > 0) milestones of
                     Some nextMilestone \<Rightarrow> Some (planFor current url nextMilestone)
                   | None \<Rightarrow>
                       (case find hasWork milestones of
                          Some firstUpcomingWithWork \<Rightarrow>
                            (let uncheckedFallback = uncheckedTexts firstUpcomingWithWork in
                               Some \<lparr> currentVersion = Some (formatSemver cv),
                                      nextVersionHeading = heading firstUpcomingWithWork,
                                      items_plan =
                                        (if length uncheckedFallback > 0 then uncheckedFallback
                                         else [''No tasks listed for this milestone.'']),
                                      sourceUrl = Some url,
                                      hasNextVersion = True \<rparr>)
                        | None \<Rightarrow>
                            Some \<lparr> currentVersion = Some (formatSemver cv),
                                   nextVersionHeading = ''No newer roadmap milestone listed yet'',
                                   items_plan =
                                     [''ROADMAP.md currently has no version higher than the latest stable release.''],
                                   sourceUrl = Some url,
                                   hasNextVersion = False \<rparr>))
              | None \<Rightarrow>
                  (case milestones of
                     [] \<Rightarrow> None
                   | baseline # _ \<Rightarrow>
                       (let nextMilestone =
                              (case find (\<lambda>m. compareSemver (version m) (version baseline) > 0) milestones of
                                 Some m \<Rightarrow> m
                               | None \<Rightarrow> (case find hasWork milestones of Some m \<Rightarrow> m | None \<Rightarrow> baseline))
                        in Some (planFor current url nextMilestone)))))"

section \<open>Lemmas\<close>

lemma set_insertBy: "set (insertBy cmp x ys) = insert x (set ys)"
  by (induction ys) auto

lemma mset_insertBy: "mset (insertBy cmp x ys) = add_mset x (mset ys)"
  by (induction ys) auto

lemma mset_arraySort: "mset (arraySort cmp xs) = mset xs"
  by (induction xs) (auto simp: mset_insertBy)

lemma set_arraySort: "set (arraySort cmp xs) = set xs"
  by (metis mset_arraySort set_mset_mset)

lemma length_arraySort: "length (arraySort cmp xs) = length xs"
  by (metis mset_arraySort size_mset)

lemma arraySort_head_least:
  assumes total: "\<And>a b. cmp a b \<le> 0 \<or> cmp b a \<le> 0"
      and trans: "\<And>a b c. cmp a b \<le> 0 \<Longrightarrow> cmp b c \<le> 0 \<Longrightarrow> cmp a c \<le> 0"
  shows "arraySort cmp xs = z # zs \<Longrightarrow> y \<in> set xs \<Longrightarrow> cmp z y \<le> 0"
proof (induction xs arbitrary: z zs y)
  case Nil
  then show ?case by simp
next
  case (Cons x xs)
  show ?case
  proof (cases "arraySort cmp xs")
    case Nil
    then have "xs = []" using length_arraySort [of cmp xs] by simp
    with Cons.prems total [of x x] show ?thesis by auto
  next
    case (Cons s ss)
    have least: "\<And>v. v \<in> set xs \<Longrightarrow> cmp s v \<le> 0"
      using Cons.IH [OF Cons] by blast
    show ?thesis
    proof (cases "cmp x s \<le> 0")
      case True
      then have z: "z = x" using Cons.prems(1) Cons by simp
      show ?thesis
      proof (cases "y = x")
        case True
        then show ?thesis using z total [of x x] by simp
      next
        case False
        then have "y \<in> set xs" using Cons.prems(2) by simp
        then show ?thesis using trans [OF True least] z by simp
      qed
    next
      case False
      then have z: "z = s" using Cons.prems(1) Cons by simp
      have "cmp s x \<le> 0" using total [of x s] False by blast
      then show ?thesis using least Cons.prems(2) z by auto
    qed
  qed
qed

lemma compareAssets_le:
  "compareAssets ts a b \<le> 0 \<longleftrightarrow>
     assetScore ts b < assetScore ts a \<or>
     (assetScore ts b = assetScore ts a \<and> size_bytes b \<le> size_bytes a)"
  by (auto simp: compareAssets_def Let_def)

lemma chooseBestAsset_Nil: "chooseBestAsset [] ts = None"
  by (simp add: chooseBestAsset_def)

lemma chooseBestAsset_None_iff: "chooseBestAsset pool ts = None \<longleftrightarrow> pool = []"
  using length_arraySort [of "compareAssets ts" pool]
  by (auto simp: chooseBestAsset_def split: list.splits)

lemma chooseBestAsset_mem: "chooseBestAsset pool ts = Some best \<Longrightarrow> best \<in> set pool"
  using set_arraySort [of "compareAssets ts" pool]
  by (auto simp: chooseBestAsset_def split: list.splits if_splits)

lemma chooseBestAsset_least:
  assumes "chooseBestAsset pool ts = Some best" and "b \<in> set pool"
  shows "compareAssets ts best b \<le> 0"
proof -
  from assms(1) obtain rest where s: "arraySort (compareAssets ts) pool = best # rest"
    by (auto simp: chooseBestAsset_def split: list.splits if_splits)
  show ?thesis
  proof (rule arraySort_head_least [OF _ _ s assms(2)])
    show "compareAssets ts a b \<le> 0 \<or> compareAssets ts b a \<le> 0" for a b
      unfolding compareAssets_le by linarith
    show "compareAssets ts a b \<le> 0 \<Longrightarrow> compareAssets ts b c \<le> 0 \<Longrightarrow> compareAssets ts a c \<le> 0" for a b c
      unfolding compareAssets_le by linarith
  qed
qed

lemma scoreReduce_sum:
  "scoreReduce lower n idx ts score =
     score + (\<Sum>i<length ts. if includesStr lower (ts ! i) then (int n - int (idx + i)) * 10 else 0)"
proof (induction ts arbitrary: idx score)
  case Nil
  then show ?case by simp
next
  case (Cons t ts)
  have "(\<Sum>i<length ts. if includesStr lower (ts ! i) then (int n - int (Suc idx + i)) * 10 else 0)
      = (\<Sum>i<length ts. if includesStr lower (ts ! i) then (int n - int (idx + Suc i)) * 10 else 0)"
    by (rule sum.cong) auto
  then show ?case
    by (simp add: Cons.IH sum.lessThan_Suc_shift del: sum.lessThan_Suc)
qed

lemma assetScore_sum:
  "assetScore ts a =
     (\<Sum>i<length ts. if includesStr (toLowerCase (name a)) (ts ! i)
                        then (int (length ts) - int i) * 10 else 0)"
  by (simp add: assetScore_def scoreReduce_sum cong: if_cong)

lemma chooseBestAsset_best_of_pool:
  assumes "pool \<noteq> []"
  shows "\<exists>best. chooseBestAsset pool ts = Some best \<and> best \<in> set pool \<and>
           (\<forall>b\<in>set pool. assetScore ts b \<le> assetScore ts best) \<and>
           (\<forall>b\<in>set pool. assetScore ts b = assetScore ts best \<longrightarrow> size_bytes b \<le> size_bytes best)"
proof -
  from assms obtain best where b: "chooseBestAsset pool ts = Some best"
    using chooseBestAsset_None_iff [of pool ts] by (cases "chooseBestAsset pool ts") auto
  have "best \<in> set pool" by (rule chooseBestAsset_mem [OF b])
  moreover have "assetScore ts c \<le> assetScore ts best" if "c \<in> set pool" for c
    using chooseBestAsset_least [OF b that] unfolding compareAssets_le by linarith
  moreover have "size_bytes c \<le> size_bytes best"
    if "c \<in> set pool" "assetScore ts c = assetScore ts best" for c
    using chooseBestAsset_least [OF b that(1)] that(2) unfolding compareAssets_le by linarith
  ultimately show ?thesis using b by blast
qed

lemma set_windowsInstallerAssets:
  "set (windowsInstallerAssets release) =
     {a \<in> set (assets release).
        isDownloadableAsset (name a) \<and> isWindowsAsset (name a) \<and> isInstallerAsset (name a)}"
  by (auto simp: windowsInstallerAssets_def windowsAssets_def downloadableAssets_def)

lemma startsWith_iff: "startsWith s t \<longleftrightarrow> (\<exists>r. s = t @ r)"
  by (induction s t rule: startsWith.induct) auto

lemma endsWith_iff: "endsWith s t \<longleftrightarrow> (\<exists>p. s = p @ t)"
proof -
  have "endsWith s t \<longleftrightarrow> (\<exists>r. rev s = rev t @ r)"
    by (simp add: endsWith_def startsWith_iff)
  also have "\<dots> \<longleftrightarrow> (\<exists>p. s = p @ t)"
  proof
    assume "\<exists>r. rev s = rev t @ r"
    then obtain r where "rev s = rev t @ r" ..
    then have "s = rev r @ t" by (metis rev_append rev_rev_ident)
    then show "\<exists>p. s = p @ t" ..
  next
    assume "\<exists>p. s = p @ t"
    then obtain p where "s = p @ t" ..
    then have "rev s = rev t @ rev p" by simp
    then show "\<exists>r. rev s = rev t @ r" ..
  qed
  finally show ?thesis .
qed

lemma isDownloadableAsset_iff:
  "isDownloadableAsset nm \<longleftrightarrow>
     (\<exists>ext\<in>{''.exe'', ''.msi'', ''.dmg'', ''.pkg'', ''.zip'', ''.tar.gz''}.
        \<exists>p. toLowerCase nm = p @ ext)"
  unfolding isDownloadableAsset_def Let_def list_ex_iff endsWith_iff by simp

lemma set_downloadableAssets:
  "set (downloadableAssets release) = {a \<in> set (assets release). isDownloadableAsset (name a)}"
  by (auto simp: downloadableAssets_def)

lemma pools_subset:
  "set (windowsInstallerAssets release) \<subseteq> set (downloadableAssets release)"
  "set (windowsPortableAssets release) \<subseteq> set (downloadableAssets release)"
  "set (macInstallerPool arch release) \<subseteq> set (downloadableAssets release)"
  "set (macPortablePool arch release) \<subseteq> set (downloadableAssets release)"
  by (auto simp: windowsInstallerAssets_def windowsPortableAssets_def windowsAssets_def
      macInstallerPool_def macPortablePool_def macInstallerAssets_def macPortableAssets_def
      macArchAssets_def macAssets_def)

lemma slot_assets:
  "asset (windowsInstaller (buildDownloadSlots release)) =
     chooseBestAsset (windowsInstallerAssets release) [''setup'', ''.msi'', ''.exe'']"
  "asset (windowsPortable (buildDownloadSlots release)) =
     chooseBestAsset (windowsPortableAssets release) [''portable'', ''.exe'', ''.zip'']"
  "asset (macArm64Installer (buildDownloadSlots release)) =
     chooseBestAsset (macInstallerPool Arm64 release) [''dmg'', ''pkg'']"
  "asset (macArm64Portable (buildDownloadSlots release)) =
     chooseBestAsset (macPortablePool Arm64 release) [''portable'', ''.zip'', ''.tar.gz'']"
  "asset (macX64Installer (buildDownloadSlots release)) =
     chooseBestAsset (macInstallerPool X64 release) [''dmg'', ''pkg'']"
  "asset (macX64Portable (buildDownloadSlots release)) =
     chooseBestAsset (macPortablePool X64 release) [''portable'', ''.zip'', ''.tar.gz'']"
  by (simp_all add: buildDownloadSlots_def)

lemma chooseBestAsset_in:
  "chooseBestAsset pool ts = Some a \<Longrightarrow> set pool \<subseteq> D \<Longrightarrow> a \<in> D"
  using chooseBestAsset_mem by blast

lemma slot_asset_downloadable:
  assumes "s \<in> set (slotList (buildDownloadSlots release))" and "asset s = Some a"
  shows "a \<in> set (downloadableAssets release)"
  using assms
  by (auto simp: slotList_def slot_assets
      elim: chooseBestAsset_in [OF _ pools_subset(1)] chooseBestAsset_in [OF _ pools_subset(2)]
        chooseBestAsset_in [OF _ pools_subset(3)] chooseBestAsset_in [OF _ pools_subset(4)])

lemma insertBy_key: "insertBy (\<lambda>a b. f a - f b) x ys = insort_key f x ys"
  for f :: "'a \<Rightarrow> int"
  by (induction ys) auto

lemma arraySort_key: "arraySort (\<lambda>a b. f a - f b) xs = sort_key f xs"
  for f :: "'a \<Rightarrow> int"
  by (induction xs) (auto simp: insertBy_key)

lemma orderedSlots_sort_key:
  "orderedSlots slts os = sort_key (\<lambda>s. getRelevanceScore s os) slts"
  unfolding orderedSlots_def by (rule arraySort_key)

lemma getRelevanceScore_table:
  "getRelevanceScore s os =
     (case os of
        OSWindows \<Rightarrow> (case platform s of Windows \<Rightarrow> 0 | MacArm64 \<Rightarrow> 2 | MacX64 \<Rightarrow> 2)
      | OSMacArm64 \<Rightarrow> (case platform s of Windows \<Rightarrow> 2 | MacArm64 \<Rightarrow> 0 | MacX64 \<Rightarrow> 1)
      | OSMacX64 \<Rightarrow> (case platform s of Windows \<Rightarrow> 2 | MacArm64 \<Rightarrow> 1 | MacX64 \<Rightarrow> 0)
      | OSMac \<Rightarrow> (case platform s of Windows \<Rightarrow> 2 | MacArm64 \<Rightarrow> 0 | MacX64 \<Rightarrow> 0)
      | OSOther \<Rightarrow> 0
      | OSUnknown \<Rightarrow> 0)"
  by (cases os; cases "platform s") (simp_all add: getRelevanceScore_def)

lemma filter_empty_all: "(filter P xs = []) = (\<not> (\<exists>x\<in>set xs. P x))"
  by (simp add: filter_empty_conv)

lemma pushItem_props:
  "map heading (pushItem ms it) = map heading ms"
  "map version (pushItem ms it) = map version ms"
  by (cases ms rule: rev_cases; simp add: pushItem_def)+

lemma parseLines_versions:
  "\<forall>m\<in>set ms. headingVersion (heading m) = Some (version m) \<Longrightarrow>
   \<forall>m\<in>set (parseLines ls ms cur). headingVersion (heading m) = Some (version m)"
proof (induction ls arbitrary: ms cur)
  case Nil
  then show ?case by simp
next
  case (Cons line rest)
  have push: "\<forall>m\<in>set (pushItem ms it). headingVersion (heading m) = Some (version m)" for it
  proof (cases ms rule: rev_cases)
    case Nil
    then show ?thesis by (simp add: pushItem_def)
  next
    case (snoc ys y)
    with Cons.prems show ?thesis by (auto simp: pushItem_def)
  qed
  show ?case
  proof (cases "matchHeading line")
    case None
    show ?thesis
    proof (cases "matchTask line")
      case None
      with \<open>matchHeading line = None\<close> Cons show ?thesis by simp
    next
      case (Some mg)
      obtain m g where mg: "mg = (m, g)" by (cases mg)
      show ?thesis
        using \<open>matchHeading line = None\<close> Some mg Cons.IH [OF push] Cons.IH [OF Cons.prems]
        by simp
    qed
  next
    case (Some g)
    show ?thesis
    proof (cases "headingVersion (trim g)")
      case None
      with Some Cons show ?thesis by simp
    next
      case (Some v)
      have "\<forall>m\<in>set (ms @ [\<lparr> heading = trim g, version = v, items = [] \<rparr>]).
              headingVersion (heading m) = Some (version m)"
        using Cons.prems Some by simp
      from Cons.IH [OF this] \<open>matchHeading line = Some g\<close> Some show ?thesis by simp
    qed
  qed
qed

lemma parseRoadmapMarkdown_versions:
  "m \<in> set (parseRoadmapMarkdown md) \<Longrightarrow> headingVersion (heading m) = Some (version m)"
  using parseLines_versions [of "[]" "splitLines [] md" False]
  by (simp add: parseRoadmapMarkdown_def)

lemma hv120: "headingVersion ''v1.2.0'' = Some \<lparr> major = 1, minor = 2, patch = 0 \<rparr>"
  by code_simp
lemma hv130: "headingVersion ''v1.3.0'' = Some \<lparr> major = 1, minor = 3, patch = 0 \<rparr>"
  by code_simp
lemma ps120: "parseSemver ''v1.2.0'' = Some \<lparr> major = 1, minor = 2, patch = 0 \<rparr>"
  by code_simp

lemma plan_two_milestones:
  assumes ms: "parseRoadmapMarkdown md = [m1, m2] \<or> parseRoadmapMarkdown md = [m2, m1]"
      and h1: "heading m1 = ''v1.2.0''" and h2: "heading m2 = ''v1.3.0''"
      and u: "filter (\<lambda>item. \<not> done_item item) (items m2) = [it]"
  shows "\<exists>plan. fetchUpcomingReleasePlan (Some (md, url)) (parseSemver ''v1.2.0'') = Some plan \<and>
           nextVersionHeading plan = ''v1.3.0'' \<and> items_plan plan = [text_item it] \<and>
           currentVersion plan = Some ''v1.2.0'' \<and> hasNextVersion plan"
proof -
  from ms have in1: "m1 \<in> set (parseRoadmapMarkdown md)"
    and in2: "m2 \<in> set (parseRoadmapMarkdown md)"
    by auto
  have v1: "version m1 = \<lparr> major = 1, minor = 2, patch = 0 \<rparr>"
    using parseRoadmapMarkdown_versions [OF in1] hv120 by (simp add: h1)
  have v2: "version m2 = \<lparr> major = 1, minor = 3, patch = 0 \<rparr>"
    using parseRoadmapMarkdown_versions [OF in2] hv130 by (simp add: h2)
  have srt: "arraySort (\<lambda>a b. compareSemver (version a) (version b)) (parseRoadmapMarkdown md)
      = [m1, m2]"
    using ms by (auto simp: v1 v2 compareSemver_def)
  have fmt: "formatSemver \<lparr> major = 1, minor = 2, patch = 0 \<rparr> = ''v1.2.0''"
    by code_simp
  define cv where "cv = \<lparr> major = 1, minor = 2, patch = 0 \<rparr>"
  have ps: "parseSemver ''v1.2.0'' = Some cv" unfolding cv_def by (rule ps120)
  have c1: "compareSemver (version m1) cv = 0" and c2: "compareSemver (version m2) cv = 1"
    by (simp_all add: v1 v2 cv_def compareSemver_def)
  have nxt: "find (\<lambda>m. compareSemver (version m) cv > 0) [m1, m2] = Some m2"
    by (simp add: c1 c2)
  have pl: "nextVersionHeading (planFor (Some cv) url m2) = ''v1.3.0''"
    "items_plan (planFor (Some cv) url m2) = [text_item it]"
    "currentVersion (planFor (Some cv) url m2) = Some ''v1.2.0''"
    "hasNextVersion (planFor (Some cv) url m2)"
    using fmt by (simp_all add: planFor_def uncheckedTexts_def u h2 cv_def Let_def)
  have "fetchUpcomingReleasePlan (Some (md, url)) (parseSemver ''v1.2.0'')
      = Some (planFor (Some cv) url m2)"
    unfolding fetchUpcomingReleasePlan_def ps by (simp add: srt nxt del: find.simps)
  with pl show ?thesis by simp
qed

lemma splitLines_line:
  "CHR 0x0A \<notin> set l \<Longrightarrow> rev cur @ l = [] \<or> last (rev cur @ l) \<noteq> CHR 0x0D \<Longrightarrow>
   splitLines cur (l @ CHR 0x0A # rest) = (rev cur @ l) # splitLines [] rest"
proof (induction l arbitrary: cur)
  case Nil
  then show ?case by (cases cur) auto
next
  case (Cons c l)
  from Cons.prems have "c \<noteq> CHR 0x0A" "CHR 0x0A \<notin> set l" by auto
  moreover have "rev (c # cur) @ l = [] \<or> last (rev (c # cur) @ l) \<noteq> CHR 0x0D"
    using Cons.prems(2) by simp
  ultimately show ?case using Cons.IH [of "c # cur"] by simp
qed

lemma splitLines_lines:
  "\<forall>l\<in>set ls. CHR 0x0A \<notin> set l \<and> (l = [] \<or> last l \<noteq> CHR 0x0D) \<Longrightarrow>
   splitLines [] (concat (map (\<lambda>l. l @ [CHR 0x0A]) ls) @ rest) = ls @ splitLines [] rest"
proof (induction ls)
  case Nil
  then show ?case by simp
next
  case (Cons l ls)
  then have "splitLines [] (l @ CHR 0x0A # (concat (map (\<lambda>l. l @ [CHR 0x0A]) ls) @ rest))
      = l # splitLines [] (concat (map (\<lambda>l. l @ [CHR 0x0A]) ls) @ rest)"
    using splitLines_line [of l "[]"] by simp
  with Cons show ?case by simp
qed

lemma isSpace_simps:
  "isSpace (CHR '' '')" "\<not> isSpace (CHR ''['')" "isSpace (CHR 0x0A)" "isSpace (CHR 0x0D)"
  by (simp_all add: isSpace_def)

lemma isLineTerminator_simps: "isLineTerminator (CHR 0x0A)" "isLineTerminator (CHR 0x0D)"
  by (simp_all add: isLineTerminator_def)

lemma trim_clean:
  assumes "t \<noteq> []" "\<not> isSpace (hd t)" "\<not> isSpace (last t)"
  shows "trim t = t"
proof -
  from assms(1,2) have d: "dropWhile isSpace t = t" by (cases t) auto
  from assms(1,3) have "dropWhile isSpace (rev t) = rev t"
    by (cases "rev t") (auto simp: last_rev [symmetric] simp del: last_rev)
  with d show ?thesis by (simp add: trim_def)
qed

lemma matchSpacesThenRest_clean:
  assumes "t \<noteq> []" "\<not> isSpace (hd t)" "\<forall>c\<in>set t. \<not> isLineTerminator c"
  shows "matchSpacesThenRest (CHR '' '' # t) = Some t"
proof -
  from assms(1,2) have "takeWhile isSpace t = []" "dropWhile isSpace t = t"
    by (cases t; simp)+
  then show ?thesis
    using assms(1,3) by (simp add: matchSpacesThenRest_def isSpace_simps list_ex_iff)
qed

lemma matchTask_clean:
  assumes "t \<noteq> []" "\<not> isSpace (hd t)" "\<forall>c\<in>set t. \<not> isLineTerminator c"
  shows "matchTask (''- [x] '' @ t) = Some (CHR ''x'', t)"
    and "matchTask (''- [ ] '' @ t) = Some (CHR '' '', t)"
    and "matchHeading (''- [x] '' @ t) = None"
    and "matchHeading (''- [ ] '' @ t) = None"
  using matchSpacesThenRest_clean [OF assms]
  by (simp_all add: matchTask_def matchHeading_def isSpace_simps)

lemma pushItem_snoc: "pushItem (ys @ [m]) it = ys @ [m\<lparr>items := items m @ [it]\<rparr>]"
  by (simp add: pushItem_def)

lemma toLowerCase_mark: "toLowerCase [CHR ''x''] = ''x''" "toLowerCase [CHR '' ''] \<noteq> ''x''"
  by (simp_all add: toLowerCase_def toLowerChar_def)

lemma parseLines_task:
  assumes "t \<noteq> []" "\<not> isSpace (hd t)" "\<not> isSpace (last t)" "\<forall>c\<in>set t. \<not> isLineTerminator c"
  shows "parseLines ((''- [x] '' @ t) # rest) (ys @ [m]) True =
           parseLines rest (ys @ [m\<lparr>items := items m @ [\<lparr> done_item = True, text_item = t \<rparr>]\<rparr>]) True"
    and "parseLines ((''- [ ] '' @ t) # rest) (ys @ [m]) True =
           parseLines rest (ys @ [m\<lparr>items := items m @ [\<lparr> done_item = False, text_item = t \<rparr>]\<rparr>]) True"
  using matchTask_clean [OF assms(1,2,4)] trim_clean [OF assms(1,2,3)]
  by (simp_all add: pushItem_snoc toLowerCase_mark del: append.simps)

lemma parseLines_checked:
  assumes "\<forall>t\<in>set cs. t \<noteq> [] \<and> \<not> isSpace (hd t) \<and> \<not> isSpace (last t) \<and>
             (\<forall>c\<in>set t. \<not> isLineTerminator c)"
  shows "parseLines (map (\<lambda>t. ''- [x] '' @ t) cs @ rest) (ys @ [m]) True =
           parseLines rest
             (ys @ [m\<lparr>items := items m @ map (\<lambda>t. \<lparr> done_item = True, text_item = t \<rparr>) cs\<rparr>]) True"
  using assms
proof (induction cs arbitrary: m)
  case Nil
  then show ?case by simp
next
  case (Cons t cs)
  from Cons.prems have t: "t \<noteq> []" "\<not> isSpace (hd t)" "\<not> isSpace (last t)"
      "\<forall>c\<in>set t. \<not> isLineTerminator c"
    and cs: "\<forall>t\<in>set cs. t \<noteq> [] \<and> \<not> isSpace (hd t) \<and> \<not> isSpace (last t) \<and>
             (\<forall>c\<in>set t. \<not> isLineTerminator c)"
    by simp_all
  have "parseLines (map (\<lambda>t. ''- [x] '' @ t) (t # cs) @ rest) (ys @ [m]) True
      = parseLines (map (\<lambda>t. ''- [x] '' @ t) cs @ rest)
          (ys @ [m\<lparr>items := items m @ [\<lparr> done_item = True, text_item = t \<rparr>]\<rparr>]) True"
    using parseLines_task(1) [OF t] by simp
  also have "\<dots> = parseLines rest
      (ys @ [m\<lparr>items := items m @ map (\<lambda>t. \<lparr> done_item = True, text_item = t \<rparr>) (t # cs)\<rparr>]) True"
    using Cons.IH [OF cs] by simp
  finally show ?case .
qed

lemma parseLines_heading:
  "parseLines (''## v1.2.0'' # rest) ms cur =
     parseLines rest
       (ms @ [\<lparr> heading = ''v1.2.0'', version = \<lparr> major = 1, minor = 2, patch = 0 \<rparr>, items = [] \<rparr>]) True"
  "parseLines (''## v1.3.0'' # rest) ms cur =
     parseLines rest
       (ms @ [\<lparr> heading = ''v1.3.0'', version = \<lparr> major = 1, minor = 3, patch = 0 \<rparr>, items = [] \<rparr>]) True"
proof -
  have "matchHeading ''## v1.2.0'' = Some ''v1.2.0''" "matchHeading ''## v1.3.0'' = Some ''v1.3.0''"
    "trim ''v1.2.0'' = ''v1.2.0''" "trim ''v1.3.0'' = ''v1.3.0''"
    by code_simp+
  then show
    "parseLines (''## v1.2.0'' # rest) ms cur =
     parseLines rest
       (ms @ [\<lparr> heading = ''v1.2.0'', version = \<lparr> major = 1, minor = 2, patch = 0 \<rparr>, items = [] \<rparr>]) True"
    "parseLines (''## v1.3.0'' # rest) ms cur =
     parseLines rest
       (ms @ [\<lparr> heading = ''v1.3.0'', version = \<lparr> major = 1, minor = 3, patch = 0 \<rparr>, items = [] \<rparr>]) True"
    using hv120 hv130 by simp_all
qed

lemma parseLines_last: "parseLines [[]] ms cur = ms"
  by (simp add: matchHeading_def matchTask_def)

lemma clean_line:
  assumes "t \<noteq> []" "\<not> isSpace (last t)" "\<forall>c\<in>set t. \<not> isLineTerminator c"
  shows "CHR 0x0A \<notin> set (p @ t) \<longleftrightarrow> CHR 0x0A \<notin> set p"
    and "last (p @ t) \<noteq> CHR 0x0D"
  using assms isLineTerminator_simps(1) isSpace_simps(4) by auto

lemma parse_rendered:
  assumes clean: "\<forall>t\<in>set (cs @ bs @ [u] @ as).
             t \<noteq> [] \<and> \<not> isSpace (hd t) \<and> \<not> isSpace (last t) \<and> (\<forall>c\<in>set t. \<not> isLineTerminator c)"
  shows "parseRoadmapMarkdown
           (concat (map (\<lambda>l. l @ [CHR 0x0A])
              (''## v1.2.0'' # map (\<lambda>t. ''- [x] '' @ t) cs @
               ''## v1.3.0'' # map (\<lambda>t. ''- [x] '' @ t) bs @
               (''- [ ] '' @ u) # map (\<lambda>t. ''- [x] '' @ t) as)))
         = [\<lparr> heading = ''v1.2.0'', version = \<lparr> major = 1, minor = 2, patch = 0 \<rparr>,
              items = map (\<lambda>t. \<lparr> done_item = True, text_item = t \<rparr>) cs \<rparr>,
            \<lparr> heading = ''v1.3.0'', version = \<lparr> major = 1, minor = 3, patch = 0 \<rparr>,
              items = map (\<lambda>t. \<lparr> done_item = True, text_item = t \<rparr>) bs @
                      \<lparr> done_item = False, text_item = u \<rparr> #
                      map (\<lambda>t. \<lparr> done_item = True, text_item = t \<rparr>) as \<rparr>]"
proof -
  let ?lines = "''## v1.2.0'' # map (\<lambda>t. ''- [x] '' @ t) cs @
               ''## v1.3.0'' # map (\<lambda>t. ''- [x] '' @ t) bs @
               (''- [ ] '' @ u) # map (\<lambda>t. ''- [x] '' @ t) as"
  from clean have c_cs: "\<forall>t\<in>set cs. t \<noteq> [] \<and> \<not> isSpace (hd t) \<and> \<not> isSpace (last t) \<and>
             (\<forall>c\<in>set t. \<not> isLineTerminator c)"
    and c_bs: "\<forall>t\<in>set bs. t \<noteq> [] \<and> \<not> isSpace (hd t) \<and> \<not> isSpace (last t) \<and>
             (\<forall>c\<in>set t. \<not> isLineTerminator c)"
    and c_as: "\<forall>t\<in>set as. t \<noteq> [] \<and> \<not> isSpace (hd t) \<and> \<not> isSpace (last t) \<and>
             (\<forall>c\<in>set t. \<not> isLineTerminator c)"
    and c_u: "u \<noteq> []" "\<not> isSpace (hd u)" "\<not> isSpace (last u)" "\<forall>c\<in>set u. \<not> isLineTerminator c"
    by auto
  have task: "CHR 0x0A \<notin> set (p @ t) \<and> (p @ t = [] \<or> last (p @ t) \<noteq> CHR 0x0D)"
    if "t \<in> set (cs @ bs @ [u] @ as)" "CHR 0x0A \<notin> set p" for p t
  proof -
    from clean that(1) have "t \<noteq> []" "\<not> isSpace (last t)" "\<forall>c\<in>set t. \<not> isLineTerminator c"
      by blast+
    from clean_line [OF this] that(2) show ?thesis by blast
  qed
  have "\<forall>l\<in>set ?lines. CHR 0x0A \<notin> set l \<and> (l = [] \<or> last l \<noteq> CHR 0x0D)"
  proof
    fix l assume "l \<in> set ?lines"
    then consider "l = ''## v1.2.0''" | "l = ''## v1.3.0''"
      | t where "t \<in> set (cs @ bs @ [u] @ as)" "l = ''- [x] '' @ t"
      | "l = ''- [ ] '' @ u"
      by auto
    then show "CHR 0x0A \<notin> set l \<and> (l = [] \<or> last l \<noteq> CHR 0x0D)"
    proof cases
      case 1 then show ?thesis by simp
    next
      case 2 then show ?thesis by simp
    next
      case 3
      show ?thesis unfolding 3(2) by (rule task [OF 3(1)]) simp
    next
      case 4
      show ?thesis unfolding 4 by (rule task) simp_all
    qed
  qed
  from splitLines_lines [OF this, of "[]"]
  have sp: "splitLines [] (concat (map (\<lambda>l. l @ [CHR 0x0A]) ?lines)) = ?lines @ [[]]"
    by simp
  let ?R3 = "map (\<lambda>t. ''- [x] '' @ t) as @ [[]]"
  let ?R2 = "map (\<lambda>t. ''- [x] '' @ t) bs @ (''- [ ] '' @ u) # ?R3"
  let ?R1 = "map (\<lambda>t. ''- [x] '' @ t) cs @ ''## v1.3.0'' # ?R2"
  let ?v1 = "\<lparr> major = 1, minor = 2, patch = 0 \<rparr>"
  let ?v2 = "\<lparr> major = 1, minor = 3, patch = 0 \<rparr>"
  let ?m1 = "\<lparr> heading = ''v1.2.0'', version = ?v1,
                items = map (\<lambda>t. \<lparr> done_item = True, text_item = t \<rparr>) cs \<rparr>"
  have "parseLines (?lines @ [[]]) [] False = parseLines (''## v1.2.0'' # ?R1) [] False"
    by (simp del: parseLines.simps)
  also have "\<dots> = parseLines ?R1 [\<lparr> heading = ''v1.2.0'', version = ?v1, items = [] \<rparr>] True"
    using parseLines_heading(1) [of ?R1 "[]" False] by (simp del: parseLines.simps)
  also have "\<dots> = parseLines (''## v1.3.0'' # ?R2) [?m1] True"
    using parseLines_checked [OF c_cs, of "''## v1.3.0'' # ?R2" "[]"
        "\<lparr> heading = ''v1.2.0'', version = ?v1, items = [] \<rparr>"]
    by (simp del: parseLines.simps)
  also have "\<dots> = parseLines ?R2 [?m1, \<lparr> heading = ''v1.3.0'', version = ?v2, items = [] \<rparr>] True"
    using parseLines_heading(2) [of ?R2 "[?m1]" True] by (simp del: parseLines.simps)
  also have "\<dots> = parseLines ((''- [ ] '' @ u) # ?R3)
      [?m1, \<lparr> heading = ''v1.3.0'', version = ?v2,
               items = map (\<lambda>t. \<lparr> done_item = True, text_item = t \<rparr>) bs \<rparr>] True"
    using parseLines_checked [OF c_bs, of "(''- [ ] '' @ u) # ?R3" "[?m1]"
        "\<lparr> heading = ''v1.3.0'', version = ?v2, items = [] \<rparr>"]
    by (simp del: parseLines.simps)
  also have "\<dots> = parseLines ?R3
      [?m1, \<lparr> heading = ''v1.3.0'', version = ?v2,
               items = map (\<lambda>t. \<lparr> done_item = True, text_item = t \<rparr>) bs @
                       [\<lparr> done_item = False, text_item = u \<rparr>] \<rparr>] True"
    using parseLines_task(2) [OF c_u, of ?R3 "[?m1]"
        "\<lparr> heading = ''v1.3.0'', version = ?v2,
               items = map (\<lambda>t. \<lparr> done_item = True, text_item = t \<rparr>) bs \<rparr>"]
    by (simp del: parseLines.simps)
  also have "\<dots> = parseLines [[]]
      [?m1, \<lparr> heading = ''v1.3.0'', version = ?v2,
               items = map (\<lambda>t. \<lparr> done_item = True, text_item = t \<rparr>) bs @
                       \<lparr> done_item = False, text_item = u \<rparr> #
                       map (\<lambda>t. \<lparr> done_item = True, text_item = t \<rparr>) as \<rparr>] True"
    using parseLines_checked [OF c_as, of "[[]]" "[?m1]"
        "\<lparr> heading = ''v1.3.0'', version = ?v2,
               items = map (\<lambda>t. \<lparr> done_item = True, text_item = t \<rparr>) bs @
                       [\<lparr> done_item = False, text_item = u \<rparr>] \<rparr>"]
    by (simp del: parseLines.simps)
  finally have "parseLines (?lines @ [[]]) [] False =
      [?m1, \<lparr> heading = ''v1.3.0'', version = ?v2,
               items = map (\<lambda>t. \<lparr> done_item = True, text_item = t \<rparr>) bs @
                       \<lparr> done_item = False, text_item = u \<rparr> #
                       map (\<lambda>t. \<lparr> done_item = True, text_item = t \<rparr>) as \<rparr>]"
    by (simp only: parseLines_last)
  then show ?thesis
    by (simp only: parseRoadmapMarkdown_def sp)
qed

section \<open>Best-asset selection (C1)\<close>

text \<open>
  Claim C1, as amended. \<open>chooseBestAsset\<close> returns null for the empty pool; for a
  non-empty pool it returns a member of the pool whose score is maximal and, among the
  members of maximal score, of maximal byte size. The score of an asset is the sum, over
  the indices \<open>i\<close> of the preferred terms contained in its lowercased name, of
  \<open>(length - i) * 10\<close>, so an earlier term weighs more. The pool of the windows-installer
  slot holds the assets of the release that are downloadable, Windows and installer-style;
  when the release has such an asset, the slot's asset is not null and is the best of
  that pool for the terms \<open>setup\<close>, \<open>.msi\<close>, \<open>.exe\<close>.
\<close>

theorem chooseBestAsset_highest_score:
  "chooseBestAsset [] ts = None \<and>
   (pool \<noteq> [] \<longrightarrow>
      (\<exists>best. chooseBestAsset pool ts = Some best \<and> best \<in> set pool \<and>
         (\<forall>b\<in>set pool. assetScore ts b \<le> assetScore ts best) \<and>
         (\<forall>b\<in>set pool. assetScore ts b = assetScore ts best \<longrightarrow>
                         size_bytes b \<le> size_bytes best))) \<and>
   assetScore ts a =
     (\<Sum>i<length ts. if includesStr (toLowerCase (name a)) (ts ! i)
                        then (int (length ts) - int i) * 10 else 0) \<and>
   set (windowsInstallerAssets release) =
     {c \<in> set (assets release).
        isDownloadableAsset (name c) \<and> isWindowsAsset (name c) \<and> isInstallerAsset (name c)} \<and>
   ((\<exists>c\<in>set (assets release).
        isDownloadableAsset (name c) \<and> isWindowsAsset (name c) \<and> isInstallerAsset (name c)) \<longrightarrow>
      (\<exists>best. asset (windowsInstaller (buildDownloadSlots release)) = Some best \<and>
         best \<in> set (windowsInstallerAssets release) \<and>
         (\<forall>b\<in>set (windowsInstallerAssets release).
            assetScore [''setup'', ''.msi'', ''.exe''] b \<le> assetScore [''setup'', ''.msi'', ''.exe''] best) \<and>
         (\<forall>b\<in>set (windowsInstallerAssets release).
            assetScore [''setup'', ''.msi'', ''.exe''] b = assetScore [''setup'', ''.msi'', ''.exe''] best \<longrightarrow>
            size_bytes b \<le> size_bytes best)))"
proof -
  have p1: "chooseBestAsset [] ts = None" by (rule chooseBestAsset_Nil)
  have p2: "pool \<noteq> [] \<longrightarrow>
      (\<exists>best. chooseBestAsset pool ts = Some best \<and> best \<in> set pool \<and>
         (\<forall>b\<in>set pool. assetScore ts b \<le> assetScore ts best) \<and>
         (\<forall>b\<in>set pool. assetScore ts b = assetScore ts best \<longrightarrow>
                         size_bytes b \<le> size_bytes best))"
    using chooseBestAsset_best_of_pool [of pool ts] by blast
  have p3: "assetScore ts a =
     (\<Sum>i<length ts. if includesStr (toLowerCase (name a)) (ts ! i)
                        then (int (length ts) - int i) * 10 else 0)"
    by (rule assetScore_sum)
  note p4 = set_windowsInstallerAssets [of release]
  have p5: "(\<exists>c\<in>set (assets release).
        isDownloadableAsset (name c) \<and> isWindowsAsset (name c) \<and> isInstallerAsset (name c)) \<longrightarrow>
      (\<exists>best. asset (windowsInstaller (buildDownloadSlots release)) = Some best \<and>
         best \<in> set (windowsInstallerAssets release) \<and>
         (\<forall>b\<in>set (windowsInstallerAssets release).
            assetScore [''setup'', ''.msi'', ''.exe''] b \<le> assetScore [''setup'', ''.msi'', ''.exe''] best) \<and>
         (\<forall>b\<in>set (windowsInstallerAssets release).
            assetScore [''setup'', ''.msi'', ''.exe''] b = assetScore [''setup'', ''.msi'', ''.exe''] best \<longrightarrow>
            size_bytes b \<le> size_bytes best))"
  proof
    assume "\<exists>c\<in>set (assets release).
        isDownloadableAsset (name c) \<and> isWindowsAsset (name c) \<and> isInstallerAsset (name c)"
    then have "set (windowsInstallerAssets release) \<noteq> {}" unfolding p4 by blast
    then have ne: "windowsInstallerAssets release \<noteq> []" by auto
    have sl: "asset (windowsInstaller (buildDownloadSlots release)) =
        chooseBestAsset (windowsInstallerAssets release) [''setup'', ''.msi'', ''.exe'']"
      by (simp add: buildDownloadSlots_def)
    show "\<exists>best. asset (windowsInstaller (buildDownloadSlots release)) = Some best \<and>
         best \<in> set (windowsInstallerAssets release) \<and>
         (\<forall>b\<in>set (windowsInstallerAssets release).
            assetScore [''setup'', ''.msi'', ''.exe''] b \<le> assetScore [''setup'', ''.msi'', ''.exe''] best) \<and>
         (\<forall>b\<in>set (windowsInstallerAssets release).
            assetScore [''setup'', ''.msi'', ''.exe''] b = assetScore [''setup'', ''.msi'', ''.exe''] best \<longrightarrow>
            size_bytes b \<le> size_bytes best)"
      unfolding sl by (rule chooseBestAsset_best_of_pool [OF ne])
  qed
  from p1 p2 p3 p4 p5 show ?thesis by (intro conjI)
qed

text \<open>The theorem at a concrete input.\<close>

theorem chooseBestAsset_highest_score_witness:
  "chooseBestAsset
     [\<lparr> name = ''Mira-1.0.0-win.exe'', browser_download_url = '''', size_bytes = 900 \<rparr>,
      \<lparr> name = ''Mira-Setup-1.0.0.exe'', browser_download_url = '''', size_bytes = 500 \<rparr>]
     [''setup'', ''.msi'', ''.exe'']
   = Some \<lparr> name = ''Mira-Setup-1.0.0.exe'', browser_download_url = '''', size_bytes = 500 \<rparr> \<and>
   asset (windowsInstaller (buildDownloadSlots
     \<lparr> id_rel = 1, name_rel = ''Mira 1.0.0'', tag_name = ''v1.0.0'', html_url = '''',
       published_at = '''', prerelease = False, draft = False,
       assets = [\<lparr> name = ''Mira-Setup-1.0.0.exe'', browser_download_url = '''', size_bytes = 500 \<rparr>,
                 \<lparr> name = ''Mira-1.0.0.msi'', browser_download_url = '''', size_bytes = 700 \<rparr>,
                 \<lparr> name = ''notes.txt'', browser_download_url = '''', size_bytes = 9000 \<rparr>] \<rparr>))
   = Some \<lparr> name = ''Mira-Setup-1.0.0.exe'', browser_download_url = '''', size_bytes = 500 \<rparr>"
proof -
  let ?a1 = "\<lparr> name = ''Mira-1.0.0-win.exe'', browser_download_url = '''', size_bytes = 900 \<rparr>"
  let ?a2 = "\<lparr> name = ''Mira-Setup-1.0.0.exe'', browser_download_url = '''', size_bytes = 500 \<rparr>"
  let ?a3 = "\<lparr> name = ''Mira-1.0.0.msi'', browser_download_url = '''', size_bytes = 700 \<rparr>"
  let ?a4 = "\<lparr> name = ''notes.txt'', browser_download_url = '''', size_bytes = 9000 \<rparr>"
  let ?ts = "[''setup'', ''.msi'', ''.exe'']"
  let ?r = "\<lparr> id_rel = 1, name_rel = ''Mira 1.0.0'', tag_name = ''v1.0.0'', html_url = '''',
       published_at = '''', prerelease = False, draft = False, assets = [?a2, ?a3, ?a4] \<rparr>"
  have s1: "assetScore ?ts ?a1 = 10" by code_simp
  have s2: "assetScore ?ts ?a2 = 40" by code_simp
  have s3: "assetScore ?ts ?a3 = 20" by code_simp
  have pool: "windowsInstallerAssets ?r = [?a2, ?a3]" by code_simp
  have dl: "isDownloadableAsset (name ?a2) \<and> isWindowsAsset (name ?a2) \<and> isInstallerAsset (name ?a2)"
    by code_simp
  note t = chooseBestAsset_highest_score [where pool = "[?a1, ?a2]" and ts = ?ts and a = ?a1 and release = ?r]
  from t obtain b1 where b1: "chooseBestAsset [?a1, ?a2] ?ts = Some b1" "b1 \<in> set [?a1, ?a2]"
     "\<forall>b\<in>set [?a1, ?a2]. assetScore ?ts b \<le> assetScore ?ts b1"
    by blast
  have "b1 = ?a2" using b1(2,3) s1 s2 by auto
  moreover
  have "\<exists>c\<in>set (assets ?r). isDownloadableAsset (name c) \<and> isWindowsAsset (name c) \<and> isInstallerAsset (name c)"
    using dl by simp
  with t obtain b2 where b2: "asset (windowsInstaller (buildDownloadSlots ?r)) = Some b2"
     "b2 \<in> set (windowsInstallerAssets ?r)"
     "\<forall>b\<in>set (windowsInstallerAssets ?r). assetScore ?ts b \<le> assetScore ?ts b2"
    by blast
  have "b2 = ?a2" using b2(2,3) s2 s3 unfolding pool by auto
  ultimately show ?thesis using b1(1) b2(1) by simp
qed

text \<open>
  Claim C1 as stated fails for a release whose only Windows installer-style asset has no
  downloadable extension: the asset is filtered out before the pools are built, and the
  windows-installer slot stays null.
\<close>

theorem windowsInstaller_not_downloadable_counterexample:
  "isWindowsAsset ''mira-win-setup.msix'' \<and> isInstallerAsset ''mira-win-setup.msix'' \<and>
   asset (windowsInstaller (buildDownloadSlots
     \<lparr> id_rel = 1, name_rel = ''Mira 1.0.0'', tag_name = ''v1.0.0'', html_url = '''',
       published_at = '''', prerelease = False, draft = False,
       assets = [\<lparr> name = ''mira-win-setup.msix'', browser_download_url = '''',
                  size_bytes = 1 \<rparr>] \<rparr>)) = None"
  by code_simp

section \<open>Release selection (C2)\<close>

text \<open>
  Claim C2. The page renders the fetched release list under the requested flag. The
  effective include-prereleases decision is the requested flag or "no stable release
  exists"; the selected release is the first release of the whole list when pre-releases
  are included, and the first stable release otherwise. When the flag is false and every
  release is a pre-release, the decision is true and the first release of the list is
  selected; the empty list selects no release.
\<close>

theorem release_selection:
  "DownloadsPage q resp = renderDownloads (parseIncludePrereleases q) (fetchReleases resp) \<and>
   effectiveIncludePrereleases (renderDownloads requested releases) =
     (requested \<or> \<not> (\<exists>r\<in>set releases. \<not> prerelease r)) \<and>
   selectedRelease (renderDownloads requested releases) =
     (if effectiveIncludePrereleases (renderDownloads requested releases)
      then (case releases of [] \<Rightarrow> None | r # _ \<Rightarrow> Some r)
      else (case filter (\<lambda>r. \<not> prerelease r) releases of [] \<Rightarrow> None | r # _ \<Rightarrow> Some r)) \<and>
   ((\<forall>r\<in>set releases. prerelease r) \<longrightarrow>
      effectiveIncludePrereleases (renderDownloads False releases) \<and>
      selectedRelease (renderDownloads False releases) =
        (case releases of [] \<Rightarrow> None | r # _ \<Rightarrow> Some r)) \<and>
   selectedRelease (renderDownloads requested []) = None"
proof -
  have p1: "DownloadsPage q resp = renderDownloads (parseIncludePrereleases q) (fetchReleases resp)"
    by (simp add: DownloadsPage_def)
  have p2: "effectiveIncludePrereleases (renderDownloads requested releases) =
     (requested \<or> \<not> (\<exists>r\<in>set releases. \<not> prerelease r))" for requested releases
    by (simp add: renderDownloads_def Let_def filter_empty_all)
  have p3: "selectedRelease (renderDownloads requested releases) =
     (if effectiveIncludePrereleases (renderDownloads requested releases)
      then (case releases of [] \<Rightarrow> None | r # _ \<Rightarrow> Some r)
      else (case filter (\<lambda>r. \<not> prerelease r) releases of [] \<Rightarrow> None | r # _ \<Rightarrow> Some r))"
    for requested releases
    by (simp add: renderDownloads_def Let_def firstOrNull_def)
  have p4: "(\<forall>r\<in>set releases. prerelease r) \<longrightarrow>
      effectiveIncludePrereleases (renderDownloads False releases) \<and>
      selectedRelease (renderDownloads False releases) =
        (case releases of [] \<Rightarrow> None | r # _ \<Rightarrow> Some r)"
    using p2 [of False releases] p3 [of False releases] by auto
  have p5: "selectedRelease (renderDownloads requested []) = None"
    by (simp add: renderDownloads_def Let_def firstOrNull_def)
  from p1 p2 p3 p4 p5 show ?thesis by (intro conjI)
qed

text \<open>The theorem at a concrete input.\<close>

theorem release_selection_witness:
  "effectiveIncludePrereleases
     (renderDownloads False
        [\<lparr> id_rel = 2, name_rel = ''Mira 1.1.0 beta'', tag_name = ''v1.1.0-beta'', html_url = '''',
           published_at = '''', prerelease = True, draft = False, assets = [] \<rparr>,
         \<lparr> id_rel = 1, name_rel = ''Mira 1.0.0 rc'', tag_name = ''v1.0.0-rc'', html_url = '''',
           published_at = '''', prerelease = True, draft = False, assets = [] \<rparr>]) \<and>
   selectedRelease
     (renderDownloads False
        [\<lparr> id_rel = 2, name_rel = ''Mira 1.1.0 beta'', tag_name = ''v1.1.0-beta'', html_url = '''',
           published_at = '''', prerelease = True, draft = False, assets = [] \<rparr>,
         \<lparr> id_rel = 1, name_rel = ''Mira 1.0.0 rc'', tag_name = ''v1.0.0-rc'', html_url = '''',
           published_at = '''', prerelease = True, draft = False, assets = [] \<rparr>])
   = Some \<lparr> id_rel = 2, name_rel = ''Mira 1.1.0 beta'', tag_name = ''v1.1.0-beta'', html_url = '''',
           published_at = '''', prerelease = True, draft = False, assets = [] \<rparr>"
  using release_selection
    [where releases =
      "[\<lparr> id_rel = 2, name_rel = ''Mira 1.1.0 beta'', tag_name = ''v1.1.0-beta'', html_url = '''',
           published_at = '''', prerelease = True, draft = False, assets = [] \<rparr>,
         \<lparr> id_rel = 1, name_rel = ''Mira 1.0.0 rc'', tag_name = ''v1.0.0-rc'', html_url = '''',
           published_at = '''', prerelease = True, draft = False, assets = [] \<rparr>]"]
  by simp

section \<open>The six slots (C3)\<close>

text \<open>
  Claim C3. For every release \<open>buildDownloadSlots\<close> gives six slots, with the fixed
  labels and platform tags in the canonical order; the asset of a slot is null exactly
  when the candidate pool of the slot is empty; and for a release without assets all six
  assets are null.
\<close>

theorem buildDownloadSlots_six_slots:
  "length (slotList (buildDownloadSlots release)) = 6 \<and>
   map label (slotList (buildDownloadSlots release)) =
     [''Windows Installer'', ''Windows Portable'',
      ''macOS (Apple Silicon) Installer'', ''macOS (Apple Silicon) Portable'',
      ''macOS (Intel) Installer'', ''macOS (Intel) Portable''] \<and>
   map platform (slotList (buildDownloadSlots release)) =
     [Windows, Windows, MacArm64, MacArm64, MacX64, MacX64] \<and>
   map (\<lambda>s. asset s = None) (slotList (buildDownloadSlots release)) =
     [windowsInstallerAssets release = [], windowsPortableAssets release = [],
      macInstallerPool Arm64 release = [], macPortablePool Arm64 release = [],
      macInstallerPool X64 release = [], macPortablePool X64 release = []] \<and>
   (assets release = [] \<longrightarrow>
      map asset (slotList (buildDownloadSlots release)) = [None, None, None, None, None, None])"
proof -
  have p1: "length (slotList (buildDownloadSlots release)) = 6" by (simp add: slotList_def)
  have p2: "map label (slotList (buildDownloadSlots release)) =
     [''Windows Installer'', ''Windows Portable'',
      ''macOS (Apple Silicon) Installer'', ''macOS (Apple Silicon) Portable'',
      ''macOS (Intel) Installer'', ''macOS (Intel) Portable'']"
    by (simp add: slotList_def buildDownloadSlots_def)
  have p3: "map platform (slotList (buildDownloadSlots release)) =
     [Windows, Windows, MacArm64, MacArm64, MacX64, MacX64]"
    by (simp add: slotList_def buildDownloadSlots_def)
  have p4: "map (\<lambda>s. asset s = None) (slotList (buildDownloadSlots release)) =
     [windowsInstallerAssets release = [], windowsPortableAssets release = [],
      macInstallerPool Arm64 release = [], macPortablePool Arm64 release = [],
      macInstallerPool X64 release = [], macPortablePool X64 release = []]"
    by (simp add: slotList_def slot_assets chooseBestAsset_None_iff)
  have p5: "assets release = [] \<longrightarrow>
      map asset (slotList (buildDownloadSlots release)) = [None, None, None, None, None, None]"
  proof
    assume "assets release = []"
    then have "downloadableAssets release = []" by (simp add: downloadableAssets_def)
    then have "windowsInstallerAssets release = []" "windowsPortableAssets release = []"
      "macInstallerPool arch release = []" "macPortablePool arch release = []" for arch
      by (simp_all add: windowsInstallerAssets_def windowsPortableAssets_def windowsAssets_def
          macInstallerPool_def macPortablePool_def macInstallerAssets_def macPortableAssets_def
          macArchAssets_def macAssets_def)
    then show "map asset (slotList (buildDownloadSlots release)) = [None, None, None, None, None, None]"
      by (simp add: slotList_def slot_assets chooseBestAsset_Nil)
  qed
  from p1 p2 p3 p4 p5 show ?thesis by (intro conjI)
qed

text \<open>The theorem at a concrete input.\<close>

theorem buildDownloadSlots_six_slots_witness:
  "map asset (slotList (buildDownloadSlots
     \<lparr> id_rel = 1, name_rel = ''Mira 1.0.0'', tag_name = ''v1.0.0'', html_url = '''',
       published_at = '''', prerelease = False, draft = False, assets = [] \<rparr>))
   = [None, None, None, None, None, None]"
  using buildDownloadSlots_six_slots
    [of "\<lparr> id_rel = 1, name_rel = ''Mira 1.0.0'', tag_name = ''v1.0.0'', html_url = '''',
       published_at = '''', prerelease = False, draft = False, assets = [] \<rparr>"]
  by simp

section \<open>Relevance scores (C4)\<close>

text \<open>
  Claim C4. The relevance score of a slot is the entry of the table: detected windows
  gives 0 to windows slots and 2 to both kinds of mac slot; detected mac-arm64 gives 0 to
  mac-arm64, 1 to mac-x64 and 2 to windows; detected mac-x64 gives 0 to mac-x64, 1 to
  mac-arm64 and 2 to windows; detected generic mac gives 2 to windows and 0 to both kinds
  of mac slot; detected other or unknown gives 0 to every slot, and then the ordered list
  is the input list.
\<close>

theorem getRelevanceScore_matches_table:
  "getRelevanceScore s os =
     (case os of
        OSWindows \<Rightarrow> (case platform s of Windows \<Rightarrow> 0 | MacArm64 \<Rightarrow> 2 | MacX64 \<Rightarrow> 2)
      | OSMacArm64 \<Rightarrow> (case platform s of Windows \<Rightarrow> 2 | MacArm64 \<Rightarrow> 0 | MacX64 \<Rightarrow> 1)
      | OSMacX64 \<Rightarrow> (case platform s of Windows \<Rightarrow> 2 | MacArm64 \<Rightarrow> 1 | MacX64 \<Rightarrow> 0)
      | OSMac \<Rightarrow> (case platform s of Windows \<Rightarrow> 2 | MacArm64 \<Rightarrow> 0 | MacX64 \<Rightarrow> 0)
      | OSOther \<Rightarrow> 0
      | OSUnknown \<Rightarrow> 0) \<and>
   orderedSlots slts OSOther = slts \<and> orderedSlots slts OSUnknown = slts"
proof -
  have "orderedSlots slts OSOther = slts" "orderedSlots slts OSUnknown = slts"
    by (simp_all add: orderedSlots_sort_key getRelevanceScore_def sort_key_const)
  then show ?thesis using getRelevanceScore_table [of s os] by simp
qed

section \<open>Reordering (C5)\<close>

text \<open>
  Claim C5. The ordered list is a permutation of the input list, and the sort is stable:
  for every score, the slots of that score appear in their input order. When the detected
  platform is mac-arm64, every mac-arm64 slot of the ordered list stands before every
  mac-x64 slot, every mac-x64 slot before every windows slot, and every mac-arm64 slot
  before every windows slot.
\<close>

theorem orderedSlots_stable_permutation:
  "mset (orderedSlots slts os) = mset slts \<and>
   (\<forall>k. filter (\<lambda>s. getRelevanceScore s os = k) (orderedSlots slts os) =
        filter (\<lambda>s. getRelevanceScore s os = k) slts) \<and>
   (\<forall>i j. i < length slts \<and> j < length slts \<and>
          platform (orderedSlots slts OSMacArm64 ! i) = MacArm64 \<and>
          platform (orderedSlots slts OSMacArm64 ! j) = MacX64 \<longrightarrow> i < j) \<and>
   (\<forall>i j. i < length slts \<and> j < length slts \<and>
          platform (orderedSlots slts OSMacArm64 ! i) = MacX64 \<and>
          platform (orderedSlots slts OSMacArm64 ! j) = Windows \<longrightarrow> i < j) \<and>
   (\<forall>i j. i < length slts \<and> j < length slts \<and>
          platform (orderedSlots slts OSMacArm64 ! i) = MacArm64 \<and>
          platform (orderedSlots slts OSMacArm64 ! j) = Windows \<longrightarrow> i < j)"
proof -
  let ?f = "\<lambda>s. getRelevanceScore s OSMacArm64"
  let ?o = "orderedSlots slts OSMacArm64"
  have len: "length ?o = length slts" by (simp add: orderedSlots_sort_key)
  have srt: "sorted (map ?f ?o)" by (simp add: orderedSlots_sort_key)
  have mono: "?f (?o ! j) \<le> ?f (?o ! i)" if "j \<le> i" "i < length slts" for i j
    using srt that len by (simp add: sorted_iff_nth_mono)
  have before: "i < j"
    if "i < length slts" "j < length slts" "?f (?o ! i) < ?f (?o ! j)" for i j
  proof (rule ccontr)
    assume "\<not> i < j"
    then have "j \<le> i" by simp
    from mono [OF this that(1)] that(3) show False by simp
  qed
  have sc: "?f s = (case platform s of Windows \<Rightarrow> 2 | MacArm64 \<Rightarrow> 0 | MacX64 \<Rightarrow> 1)" for s
    by (simp add: getRelevanceScore_table)
  have p1: "mset (orderedSlots slts os) = mset slts" by (simp add: orderedSlots_sort_key)
  have p2: "\<forall>k. filter (\<lambda>s. getRelevanceScore s os = k) (orderedSlots slts os) =
        filter (\<lambda>s. getRelevanceScore s os = k) slts"
    by (simp add: orderedSlots_sort_key sort_key_stable)
  have p3: "\<forall>i j. i < length slts \<and> j < length slts \<and>
          platform (?o ! i) = MacArm64 \<and> platform (?o ! j) = MacX64 \<longrightarrow> i < j"
    using before by (simp add: sc)
  have p4: "\<forall>i j. i < length slts \<and> j < length slts \<and>
          platform (?o ! i) = MacX64 \<and> platform (?o ! j) = Windows \<longrightarrow> i < j"
    using before by (simp add: sc)
  have p5: "\<forall>i j. i < length slts \<and> j < length slts \<and>
          platform (?o ! i) = MacArm64 \<and> platform (?o ! j) = Windows \<longrightarrow> i < j"
    using before by (simp add: sc)
  from p1 p2 p3 p4 p5 show ?thesis by (intro conjI)
qed

text \<open>The theorem at a concrete input.\<close>

theorem orderedSlots_stable_permutation_witness:
  "platform (orderedSlots
      [\<lparr> label = ''Windows Installer'', platform = Windows, asset = None \<rparr>,
       \<lparr> label = ''macOS (Intel) Installer'', platform = MacX64, asset = None \<rparr>,
       \<lparr> label = ''macOS (Apple Silicon) Installer'', platform = MacArm64, asset = None \<rparr>]
      OSMacArm64 ! 0) = MacArm64 \<and>
   platform (orderedSlots
      [\<lparr> label = ''Windows Installer'', platform = Windows, asset = None \<rparr>,
       \<lparr> label = ''macOS (Intel) Installer'', platform = MacX64, asset = None \<rparr>,
       \<lparr> label = ''macOS (Apple Silicon) Installer'', platform = MacArm64, asset = None \<rparr>]
      OSMacArm64 ! 1) = MacX64 \<and>
   platform (orderedSlots
      [\<lparr> label = ''Windows Installer'', platform = Windows, asset = None \<rparr>,
       \<lparr> label = ''macOS (Intel) Installer'', platform = MacX64, asset = None \<rparr>,
       \<lparr> label = ''macOS (Apple Silicon) Installer'', platform = MacArm64, asset = None \<rparr>]
      OSMacArm64 ! 2) = Windows \<and>
   mset (orderedSlots
      [\<lparr> label = ''Windows Installer'', platform = Windows, asset = None \<rparr>,
       \<lparr> label = ''macOS (Intel) Installer'', platform = MacX64, asset = None \<rparr>,
       \<lparr> label = ''macOS (Apple Silicon) Installer'', platform = MacArm64, asset = None \<rparr>]
      OSMacArm64)
   = mset [\<lparr> label = ''Windows Installer'', platform = Windows, asset = None \<rparr>,
       \<lparr> label = ''macOS (Intel) Installer'', platform = MacX64, asset = None \<rparr>,
       \<lparr> label = ''macOS (Apple Silicon) Installer'', platform = MacArm64, asset = None \<rparr>] \<and>
   (0::nat) < 1 \<and> (1::nat) < 2"
proof -
  let ?w = "\<lparr> label = ''Windows Installer'', platform = Windows, asset = None \<rparr>"
  let ?x = "\<lparr> label = ''macOS (Intel) Installer'', platform = MacX64, asset = None \<rparr>"
  let ?a = "\<lparr> label = ''macOS (Apple Silicon) Installer'', platform = MacArm64, asset = None \<rparr>"
  have o: "orderedSlots [?w, ?x, ?a] OSMacArm64 = [?a, ?x, ?w]"
    by (simp add: orderedSlots_def getRelevanceScore_def)
  have hyps: "platform (orderedSlots [?w, ?x, ?a] OSMacArm64 ! 0) = MacArm64"
    "platform (orderedSlots [?w, ?x, ?a] OSMacArm64 ! 1) = MacX64"
    "platform (orderedSlots [?w, ?x, ?a] OSMacArm64 ! 2) = Windows"
    unfolding o by simp_all
  note t = orderedSlots_stable_permutation [of "[?w, ?x, ?a]" OSMacArm64]
  from t have m: "mset (orderedSlots [?w, ?x, ?a] OSMacArm64) = mset [?w, ?x, ?a]" by blast
  from t have "0 < length [?w, ?x, ?a] \<and> 1 < length [?w, ?x, ?a] \<and>
      platform (orderedSlots [?w, ?x, ?a] OSMacArm64 ! 0) = MacArm64 \<and>
      platform (orderedSlots [?w, ?x, ?a] OSMacArm64 ! 1) = MacX64 \<longrightarrow> (0::nat) < 1"
    by blast
  moreover from t have "1 < length [?w, ?x, ?a] \<and> 2 < length [?w, ?x, ?a] \<and>
      platform (orderedSlots [?w, ?x, ?a] OSMacArm64 ! 1) = MacX64 \<and>
      platform (orderedSlots [?w, ?x, ?a] OSMacArm64 ! 2) = Windows \<longrightarrow> (1::nat) < 2"
    by blast
  ultimately show ?thesis using hyps m by simp
qed

section \<open>Mac architecture fallback (C6)\<close>

text \<open>
  Claim C6. For a mac architecture and a style (installer or portable), the candidate
  pool is the list of the downloadable mac assets of that architecture and style when
  there is one, and otherwise the list of the downloadable mac assets of unknown
  architecture and the same style; the four mac slots choose from these pools.
\<close>

theorem mac_pool_fallback:
  "macInstallerPool arch release =
     (if filter (\<lambda>a. isDownloadableAsset (name a) \<and> isMacAsset (name a) \<and>
                     getMacAssetArchitecture (name a) = arch \<and> isInstallerAsset (name a))
           (assets release) \<noteq> []
      then filter (\<lambda>a. isDownloadableAsset (name a) \<and> isMacAsset (name a) \<and>
                       getMacAssetArchitecture (name a) = arch \<and> isInstallerAsset (name a))
             (assets release)
      else filter (\<lambda>a. isDownloadableAsset (name a) \<and> isMacAsset (name a) \<and>
                       getMacAssetArchitecture (name a) = UnknownArch \<and> isInstallerAsset (name a))
             (assets release)) \<and>
   macPortablePool arch release =
     (if filter (\<lambda>a. isDownloadableAsset (name a) \<and> isMacAsset (name a) \<and>
                     getMacAssetArchitecture (name a) = arch \<and> isPortableAsset (name a))
           (assets release) \<noteq> []
      then filter (\<lambda>a. isDownloadableAsset (name a) \<and> isMacAsset (name a) \<and>
                       getMacAssetArchitecture (name a) = arch \<and> isPortableAsset (name a))
             (assets release)
      else filter (\<lambda>a. isDownloadableAsset (name a) \<and> isMacAsset (name a) \<and>
                       getMacAssetArchitecture (name a) = UnknownArch \<and> isPortableAsset (name a))
             (assets release)) \<and>
   asset (macArm64Installer (buildDownloadSlots release)) =
     chooseBestAsset (macInstallerPool Arm64 release) [''dmg'', ''pkg''] \<and>
   asset (macArm64Portable (buildDownloadSlots release)) =
     chooseBestAsset (macPortablePool Arm64 release) [''portable'', ''.zip'', ''.tar.gz''] \<and>
   asset (macX64Installer (buildDownloadSlots release)) =
     chooseBestAsset (macInstallerPool X64 release) [''dmg'', ''pkg''] \<and>
   asset (macX64Portable (buildDownloadSlots release)) =
     chooseBestAsset (macPortablePool X64 release) [''portable'', ''.zip'', ''.tar.gz'']"
proof -
  have i: "macInstallerAssets a release =
      filter (\<lambda>x. isDownloadableAsset (name x) \<and> isMacAsset (name x) \<and>
                   getMacAssetArchitecture (name x) = a \<and> isInstallerAsset (name x)) (assets release)"
    for a
    by (simp add: macInstallerAssets_def macArchAssets_def macAssets_def downloadableAssets_def
        conj_commute conj_left_commute)
  have p: "macPortableAssets a release =
      filter (\<lambda>x. isDownloadableAsset (name x) \<and> isMacAsset (name x) \<and>
                   getMacAssetArchitecture (name x) = a \<and> isPortableAsset (name x)) (assets release)"
    for a
    by (simp add: macPortableAssets_def macArchAssets_def macAssets_def downloadableAssets_def
        conj_commute conj_left_commute)
  show ?thesis
    unfolding macInstallerPool_def macPortablePool_def i p slot_assets by simp
qed

section \<open>Upstream failure (C7)\<close>

text \<open>
  Claim C7. A response that is not ok makes \<open>fetchReleases\<close> return the empty list; a
  successful response is returned without its drafts, so no returned release is a draft;
  and with an empty release list the page selects no release, builds no slots, renders no
  download cards and shows the notice that no release is available.
\<close>

theorem fetchReleases_degrades_to_empty:
  "(\<not> ok resp \<longrightarrow> fetchReleases resp = []) \<and>
   (ok resp \<longrightarrow> fetchReleases resp = filter (\<lambda>r. \<not> draft r) (body resp)) \<and>
   (\<forall>r\<in>set (fetchReleases resp). \<not> draft r) \<and>
   (fetchReleases resp = [] \<longrightarrow>
      selectedRelease (DownloadsPage q resp) = None \<and>
      slots (DownloadsPage q resp) = None \<and>
      noReleaseNotice (DownloadsPage q resp) \<and>
      downloadCards (DownloadsPage q resp) = None)"
  by (auto simp: fetchReleases_def DownloadsPage_def renderDownloads_def Let_def firstOrNull_def)

text \<open>The theorem at a concrete input.\<close>

theorem fetchReleases_degrades_to_empty_witness:
  "fetchReleases
     \<lparr> ok = False,
       body = [\<lparr> id_rel = 1, name_rel = ''Mira 1.0.0'', tag_name = ''v1.0.0'', html_url = '''',
                 published_at = '''', prerelease = False, draft = False, assets = [] \<rparr>] \<rparr> = [] \<and>
   selectedRelease (DownloadsPage (Single ''1'')
     \<lparr> ok = False,
       body = [\<lparr> id_rel = 1, name_rel = ''Mira 1.0.0'', tag_name = ''v1.0.0'', html_url = '''',
                 published_at = '''', prerelease = False, draft = False, assets = [] \<rparr>] \<rparr>) = None \<and>
   noReleaseNotice (DownloadsPage (Single ''1'')
     \<lparr> ok = False,
       body = [\<lparr> id_rel = 1, name_rel = ''Mira 1.0.0'', tag_name = ''v1.0.0'', html_url = '''',
                 published_at = '''', prerelease = False, draft = False, assets = [] \<rparr>] \<rparr>) \<and>
   fetchReleases
     \<lparr> ok = True,
       body = [\<lparr> id_rel = 2, name_rel = ''Mira 1.1.0'', tag_name = ''v1.1.0'', html_url = '''',
                 published_at = '''', prerelease = False, draft = True, assets = [] \<rparr>,
               \<lparr> id_rel = 1, name_rel = ''Mira 1.0.0'', tag_name = ''v1.0.0'', html_url = '''',
                 published_at = '''', prerelease = False, draft = False, assets = [] \<rparr>] \<rparr>
   = [\<lparr> id_rel = 1, name_rel = ''Mira 1.0.0'', tag_name = ''v1.0.0'', html_url = '''',
        published_at = '''', prerelease = False, draft = False, assets = [] \<rparr>]"
proof -
  let ?r1 = "\<lparr> id_rel = 1, name_rel = ''Mira 1.0.0'', tag_name = ''v1.0.0'', html_url = '''',
                 published_at = '''', prerelease = False, draft = False, assets = [] \<rparr>"
  let ?r2 = "\<lparr> id_rel = 2, name_rel = ''Mira 1.1.0'', tag_name = ''v1.1.0'', html_url = '''',
                 published_at = '''', prerelease = False, draft = True, assets = [] \<rparr>"
  let ?down = "\<lparr> ok = False, body = [?r1] \<rparr>"
  let ?up = "\<lparr> ok = True, body = [?r2, ?r1] \<rparr>"
  have e: "fetchReleases ?down = []"
    using fetchReleases_degrades_to_empty [of ?down "Single ''1''"] by simp
  then have "selectedRelease (DownloadsPage (Single ''1'') ?down) = None \<and>
      noReleaseNotice (DownloadsPage (Single ''1'') ?down)"
    using fetchReleases_degrades_to_empty [of ?down "Single ''1''"] by blast
  moreover have "fetchReleases ?up = [?r1]"
    using fetchReleases_degrades_to_empty [of ?up "Single ''1''"] by simp
  ultimately show ?thesis using e by simp
qed

section \<open>Applicability (C8)\<close>

text \<open>
  Claim C8. A slot is applicable exactly when the detected platform is unknown or other,
  or it is generic mac and the slot is mac-arm64 or mac-x64, or the slot's platform is
  the detected platform. The flag depends on the slot and the detected platform only, not
  on the ranking: the cards rendered are the input slots, each with its own flag, in some
  order.
\<close>

theorem isApplicable_iff:
  "(isApplicable s os \<longleftrightarrow>
      (os \<in> {OSUnknown, OSOther} \<or>
       (os = OSMac \<and> platform s \<in> {MacArm64, MacX64}) \<or>
       (platform s, os) \<in> {(Windows, OSWindows), (MacArm64, OSMacArm64), (MacX64, OSMacX64)})) \<and>
   mset (DownloadCards slts os) = mset (map (\<lambda>slot. (slot, isApplicable slot os)) slts)"
proof -
  have "isApplicable s os \<longleftrightarrow>
      (os \<in> {OSUnknown, OSOther} \<or>
       (os = OSMac \<and> platform s \<in> {MacArm64, MacX64}) \<or>
       (platform s, os) \<in> {(Windows, OSWindows), (MacArm64, OSMacArm64), (MacX64, OSMacX64)})"
    by (cases os; cases "platform s") (simp_all add: isApplicable_def)
  moreover have "mset (DownloadCards slts os) = mset (map (\<lambda>slot. (slot, isApplicable slot os)) slts)"
    by (simp add: DownloadCards_def orderedSlots_sort_key)
  ultimately show ?thesis by simp
qed

section \<open>Upcoming release plan (C9)\<close>

text \<open>
  Claim C9. Let the current stable version be \<open>v1.2.0\<close>. When the roadmap markdown
  parses to the two milestones \<open>v1.2.0\<close> and \<open>v1.3.0\<close> (in either order in the document)
  and \<open>v1.3.0\<close> has exactly one unchecked item, the plan has the next version heading
  \<open>v1.3.0\<close> and its items are the text of that item alone; whether the items of \<open>v1.2.0\<close>
  are checked plays no role. Such markdown exists for all item texts: the document made
  of the line \<open>## v1.2.0\<close>, checked items, the line \<open>## v1.3.0\<close> and checked items around
  one unchecked item gives that plan, for all non-empty item texts without line
  terminators and without white space at either end.
\<close>

theorem upcoming_plan_next_milestone:
  "((parseRoadmapMarkdown md = [m1, m2] \<or> parseRoadmapMarkdown md = [m2, m1]) \<and>
    heading m1 = ''v1.2.0'' \<and> heading m2 = ''v1.3.0'' \<and>
    filter (\<lambda>item. \<not> done_item item) (items m2) = [it] \<longrightarrow>
      (\<exists>plan. fetchUpcomingReleasePlan (Some (md, url)) (parseSemver ''v1.2.0'') = Some plan \<and>
         nextVersionHeading plan = ''v1.3.0'' \<and> items_plan plan = [text_item it])) \<and>
   ((\<forall>t\<in>set (cs @ bs @ [u] @ as).
        t \<noteq> [] \<and> \<not> isSpace (hd t) \<and> \<not> isSpace (last t) \<and> (\<forall>c\<in>set t. \<not> isLineTerminator c)) \<longrightarrow>
      (\<exists>plan. fetchUpcomingReleasePlan
           (Some (concat (map (\<lambda>l. l @ [CHR 0x0A])
                    (''## v1.2.0'' # map (\<lambda>t. ''- [x] '' @ t) cs @
                     ''## v1.3.0'' # map (\<lambda>t. ''- [x] '' @ t) bs @
                     (''- [ ] '' @ u) # map (\<lambda>t. ''- [x] '' @ t) as)), url))
           (parseSemver ''v1.2.0'') = Some plan \<and>
         nextVersionHeading plan = ''v1.3.0'' \<and> items_plan plan = [u]))"
proof (intro conjI impI)
  assume "(parseRoadmapMarkdown md = [m1, m2] \<or> parseRoadmapMarkdown md = [m2, m1]) \<and>
    heading m1 = ''v1.2.0'' \<and> heading m2 = ''v1.3.0'' \<and>
    filter (\<lambda>item. \<not> done_item item) (items m2) = [it]"
  then have "parseRoadmapMarkdown md = [m1, m2] \<or> parseRoadmapMarkdown md = [m2, m1]"
    "heading m1 = ''v1.2.0''" "heading m2 = ''v1.3.0''"
    "filter (\<lambda>item. \<not> done_item item) (items m2) = [it]"
    by blast+
  from plan_two_milestones [OF this, of url]
  show "\<exists>plan. fetchUpcomingReleasePlan (Some (md, url)) (parseSemver ''v1.2.0'') = Some plan \<and>
         nextVersionHeading plan = ''v1.3.0'' \<and> items_plan plan = [text_item it]"
    by blast
next
  let ?md = "concat (map (\<lambda>l. l @ [CHR 0x0A])
                    (''## v1.2.0'' # map (\<lambda>t. ''- [x] '' @ t) cs @
                     ''## v1.3.0'' # map (\<lambda>t. ''- [x] '' @ t) bs @
                     (''- [ ] '' @ u) # map (\<lambda>t. ''- [x] '' @ t) as))"
  let ?m1 = "\<lparr> heading = ''v1.2.0'', version = \<lparr> major = 1, minor = 2, patch = 0 \<rparr>,
              items = map (\<lambda>t. \<lparr> done_item = True, text_item = t \<rparr>) cs \<rparr>"
  let ?m2 = "\<lparr> heading = ''v1.3.0'', version = \<lparr> major = 1, minor = 3, patch = 0 \<rparr>,
              items = map (\<lambda>t. \<lparr> done_item = True, text_item = t \<rparr>) bs @
                      \<lparr> done_item = False, text_item = u \<rparr> #
                      map (\<lambda>t. \<lparr> done_item = True, text_item = t \<rparr>) as \<rparr>"
  assume "\<forall>t\<in>set (cs @ bs @ [u] @ as).
        t \<noteq> [] \<and> \<not> isSpace (hd t) \<and> \<not> isSpace (last t) \<and> (\<forall>c\<in>set t. \<not> isLineTerminator c)"
  then have "parseRoadmapMarkdown ?md = [?m1, ?m2]" by (rule parse_rendered)
  then have "parseRoadmapMarkdown ?md = [?m1, ?m2] \<or> parseRoadmapMarkdown ?md = [?m2, ?m1]" ..
  moreover have "heading ?m1 = ''v1.2.0''" "heading ?m2 = ''v1.3.0''" by simp_all
  moreover have "filter (\<lambda>item. \<not> done_item item) (items ?m2) = [\<lparr> done_item = False, text_item = u \<rparr>]"
    by (simp add: filter_empty_conv)
  ultimately have "\<exists>plan. fetchUpcomingReleasePlan (Some (?md, url)) (parseSemver ''v1.2.0'') = Some plan \<and>
           nextVersionHeading plan = ''v1.3.0'' \<and>
           items_plan plan = [text_item \<lparr> done_item = False, text_item = u \<rparr>] \<and>
           currentVersion plan = Some ''v1.2.0'' \<and> hasNextVersion plan"
    by (rule plan_two_milestones)
  then show "\<exists>plan. fetchUpcomingReleasePlan (Some (?md, url)) (parseSemver ''v1.2.0'') = Some plan \<and>
         nextVersionHeading plan = ''v1.3.0'' \<and> items_plan plan = [u]"
    by auto
qed

text \<open>The theorem at a concrete input.\<close>

theorem upcoming_plan_next_milestone_witness:
  "(\<exists>plan. fetchUpcomingReleasePlan
      (Some (''# Roadmap'' @ [CHR 0x0D, CHR 0x0A] @ [CHR 0x0D, CHR 0x0A] @
             ''##'' @ [CHR 0xA0] @ ''v1.3.0'' @ [CHR 0x0D, CHR 0x0A] @
             ''* [X] Sync'' @ [CHR 0x0D, CHR 0x0A] @
             ''- [ ]'' @ [CHR 0xA0] @ '' Extensions '' @ [CHR 0xA0] @ [CHR 0x0D, CHR 0x0A] @
             ''## v1.2.0'' @ [CHR 0x0D, CHR 0x0A] @
             ''- [x] Tabs'' @ [CHR 0x0D, CHR 0x0A], ''ROADMAP.md''))
      (parseSemver ''v1.2.0'') = Some plan \<and>
      nextVersionHeading plan = ''v1.3.0'' \<and> items_plan plan = [''Extensions'']) \<and>
   (\<exists>plan. fetchUpcomingReleasePlan
      (Some (''## v1.2.0'' @ [CHR 0x0A] @ ''- [x] Tabs'' @ [CHR 0x0A] @ ''- [x] Themes'' @ [CHR 0x0A] @
             ''## v1.3.0'' @ [CHR 0x0A] @ ''- [x] Sync'' @ [CHR 0x0A] @
             ''- [ ] Extensions'' @ [CHR 0x0A], ''ROADMAP.md''))
      (parseSemver ''v1.2.0'') = Some plan \<and>
      nextVersionHeading plan = ''v1.3.0'' \<and> items_plan plan = [''Extensions''])"
proof -
  let ?md = "''# Roadmap'' @ [CHR 0x0D, CHR 0x0A] @ [CHR 0x0D, CHR 0x0A] @
             ''##'' @ [CHR 0xA0] @ ''v1.3.0'' @ [CHR 0x0D, CHR 0x0A] @
             ''* [X] Sync'' @ [CHR 0x0D, CHR 0x0A] @
             ''- [ ]'' @ [CHR 0xA0] @ '' Extensions '' @ [CHR 0xA0] @ [CHR 0x0D, CHR 0x0A] @
             ''## v1.2.0'' @ [CHR 0x0D, CHR 0x0A] @
             ''- [x] Tabs'' @ [CHR 0x0D, CHR 0x0A]"
  let ?m1 = "\<lparr> heading = ''v1.2.0'', version = \<lparr> major = 1, minor = 2, patch = 0 \<rparr>,
              items = [\<lparr> done_item = True, text_item = ''Tabs'' \<rparr>] \<rparr>"
  let ?m2 = "\<lparr> heading = ''v1.3.0'', version = \<lparr> major = 1, minor = 3, patch = 0 \<rparr>,
              items = [\<lparr> done_item = True, text_item = ''Sync'' \<rparr>,
                       \<lparr> done_item = False, text_item = ''Extensions'' \<rparr>] \<rparr>"
  have p: "parseRoadmapMarkdown ?md = [?m2, ?m1]" by code_simp
  have a: "\<exists>plan. fetchUpcomingReleasePlan (Some (?md, ''ROADMAP.md'')) (parseSemver ''v1.2.0'') = Some plan \<and>
      nextVersionHeading plan = ''v1.3.0'' \<and> items_plan plan = [''Extensions'']"
    using upcoming_plan_next_milestone
      [where md = ?md and ?m1.0 = ?m1 and ?m2.0 = ?m2 and url = "''ROADMAP.md''"
        and it = "\<lparr> done_item = False, text_item = ''Extensions'' \<rparr>"]
      p
    by simp
  have c: "\<forall>t\<in>set ([''Tabs'', ''Themes''] @ [''Sync''] @ [''Extensions''] @ []).
        t \<noteq> [] \<and> \<not> isSpace (hd t) \<and> \<not> isSpace (last t) \<and> (\<forall>c\<in>set t. \<not> isLineTerminator c)"
    by (simp add: isSpace_def isLineTerminator_def)
  have b: "\<exists>plan. fetchUpcomingReleasePlan
      (Some (''## v1.2.0'' @ [CHR 0x0A] @ ''- [x] Tabs'' @ [CHR 0x0A] @ ''- [x] Themes'' @ [CHR 0x0A] @
             ''## v1.3.0'' @ [CHR 0x0A] @ ''- [x] Sync'' @ [CHR 0x0A] @
             ''- [ ] Extensions'' @ [CHR 0x0A], ''ROADMAP.md''))
      (parseSemver ''v1.2.0'') = Some plan \<and>
      nextVersionHeading plan = ''v1.3.0'' \<and> items_plan plan = [''Extensions'']"
    using upcoming_plan_next_milestone
      [where cs = "[''Tabs'', ''Themes'']" and bs = "[''Sync'']" and u = "''Extensions''"
        and as = "[]" and url = "''ROADMAP.md''"] c
    by simp
  from a b show ?thesis ..
qed

section \<open>Slot assets come from the release (C10)\<close>

text \<open>
  Claim C10. Every slot of a release whose asset is not null holds an asset of the
  release's own asset list, and the lowercased name of that asset ends in one of
  \<open>.exe\<close>, \<open>.msi\<close>, \<open>.dmg\<close>, \<open>.pkg\<close>, \<open>.zip\<close>, \<open>.tar.gz\<close>.
\<close>

theorem slot_asset_from_release_and_downloadable:
  "\<forall>s\<in>set (slotList (buildDownloadSlots release)). \<forall>a. asset s = Some a \<longrightarrow>
     a \<in> set (assets release) \<and>
     (\<exists>ext\<in>{''.exe'', ''.msi'', ''.dmg'', ''.pkg'', ''.zip'', ''.tar.gz''}.
        \<exists>p. toLowerCase (name a) = p @ ext)"
proof (intro ballI allI impI)
  fix s a
  assume "s \<in> set (slotList (buildDownloadSlots release))" and "asset s = Some a"
  then have "a \<in> set (downloadableAssets release)" by (rule slot_asset_downloadable)
  then have "a \<in> set (assets release)" and "isDownloadableAsset (name a)"
    by (simp_all add: set_downloadableAssets)
  then show "a \<in> set (assets release) \<and>
     (\<exists>ext\<in>{''.exe'', ''.msi'', ''.dmg'', ''.pkg'', ''.zip'', ''.tar.gz''}.
        \<exists>p. toLowerCase (name a) = p @ ext)"
    unfolding isDownloadableAsset_iff by blast
qed

text \<open>The theorem at a concrete input.\<close>

theorem slot_asset_from_release_and_downloadable_witness:
  "\<lparr> name = ''Mira-Setup-1.0.0.exe'', browser_download_url = '''', size_bytes = 500 \<rparr>
     \<in> set [\<lparr> name = ''Mira-Setup-1.0.0.exe'', browser_download_url = '''', size_bytes = 500 \<rparr>,
             \<lparr> name = ''notes.txt'', browser_download_url = '''', size_bytes = 9000 \<rparr>] \<and>
   (\<exists>ext\<in>{''.exe'', ''.msi'', ''.dmg'', ''.pkg'', ''.zip'', ''.tar.gz''}.
      \<exists>p. toLowerCase ''Mira-Setup-1.0.0.exe'' = p @ ext)"
proof -
  let ?a = "\<lparr> name = ''Mira-Setup-1.0.0.exe'', browser_download_url = '''', size_bytes = 500 \<rparr>"
  let ?n = "\<lparr> name = ''notes.txt'', browser_download_url = '''', size_bytes = 9000 \<rparr>"
  let ?r = "\<lparr> id_rel = 1, name_rel = ''Mira 1.0.0'', tag_name = ''v1.0.0'', html_url = '''',
       published_at = '''', prerelease = False, draft = False, assets = [?a, ?n] \<rparr>"
  have s: "windowsInstaller (buildDownloadSlots ?r) \<in> set (slotList (buildDownloadSlots ?r))"
    by (simp add: slotList_def)
  have a: "asset (windowsInstaller (buildDownloadSlots ?r)) = Some ?a" by code_simp
  from slot_asset_from_release_and_downloadable [of ?r] s a
  have "?a \<in> set (assets ?r) \<and>
      (\<exists>ext\<in>{''.exe'', ''.msi'', ''.dmg'', ''.pkg'', ''.zip'', ''.tar.gz''}.
         \<exists>p. toLowerCase (name ?a) = p @ ext)"
    by blast
  then show ?thesis by simp
qed

end
